theory Spec2Isabelle
  imports Complex_Main
begin

section \<open>CUE upload library: data model\<close>

text \<open>
  JavaScript numbers that hold byte counts, part numbers and configuration values are
  modelled as unbounded integers: every value in play (file sizes, chunk sizes, part
  indices) is an integer far below \<open>2^53\<close>, where the double-precision arithmetic of the
  source is exact and \<open>Math.ceil (a / b)\<close> agrees with the integer ceiling of the quotient.
  Bytes are natural numbers, strings are character lists.

  Errors are values.  Each constructor of \<open>err\<close> stands for one \<open>new Error (...)\<close> of the
  source, or for an error raised by a collaborator (the API client, the file system):
  \<^item> \<open>Thrown m\<close>: an error with message \<open>m\<close> raised by a collaborator;
  \<^item> \<open>Disallowed_file_type ext\<close>: \<open>Disallowed file type: ${ext}\<close>;
  \<^item> \<open>File_type_is_disallowed ext\<close>: \<open>File type ${ext} is disallowed.\<close>;
  \<^item> \<open>Not_file_or_directory p\<close>: \<open>Source path is not a file or directory: ${p}\<close>;
  \<^item> \<open>Exceeds_S3_limit n\<close>: \<open>File requires ${n} parts, exceeding S3 limit.\<close>;
  \<^item> \<open>Backend_MPU_start_error\<close>: \<open>Backend MPU start error.\<close>;
  \<^item> \<open>Failed_to_initiate_MPU e\<close>: \<open>Failed to initiate MPU: ${e.message}\<close>;
  \<^item> \<open>Read_incorrect_data_size n\<close>: \<open>Read incorrect data size for part ${n}\<close>;
  \<^item> \<open>Error_reading_part n e\<close>: \<open>Error reading/checksumming part ${n}: ${e.message}\<close>;
  \<^item> \<open>Failed_to_prepare_part n e\<close>: \<open>Failed to prepare part ${n}: ${e.message}\<close>;
  \<^item> \<open>No_parts_for_nonempty_file\<close>: \<open>No parts for non-empty file.\<close>;
  \<^item> \<open>ETag_not_found\<close>: \<open>ETag not found for part.\<close>;
  \<^item> \<open>Parts_failed ns\<close>: \<open>One or more parts failed. Failed parts: ${ns.join(', ')}\<close>;
  \<^item> \<open>Failed_to_complete_MPU e\<close>: \<open>Failed to complete MPU with backend: ${e.message}\<close>;
  \<^item> \<open>Failed_presigned_after n e\<close>:
    \<open>Failed to get presigned URL after ${n} attempts: ${e.message}\<close>;
  \<^item> \<open>Failed_to_obtain_presigned\<close>: \<open>Failed to obtain presigned URL.\<close>;
  \<^item> \<open>Type_error\<close>: the \<open>TypeError\<close> of reading a property of \<open>null\<close> or \<open>undefined\<close>;
  \<^item> \<open>S3_POST_failed s\<close>: \<open>S3 upload (POST) failed with status ${s}.\<close>;
  \<^item> \<open>S3_PUT_failed s\<close>: \<open>S3 upload (PUT) failed with status ${s}.\<close>;
  \<^item> \<open>Files_failed n\<close>: \<open>${n} file(s) failed to upload during folder processing.\<close>.
  A JavaScript \<open>Error\<close> built this way carries its message and nothing else.
\<close>

datatype err =
    Thrown string
  | Disallowed_file_type string
  | File_type_is_disallowed string
  | Not_file_or_directory string
  | Exceeds_S3_limit int
  | Backend_MPU_start_error
  | Failed_to_initiate_MPU err
  | Read_incorrect_data_size int
  | Error_reading_part int err
  | Failed_to_prepare_part int err
  | No_parts_for_nonempty_file
  | ETag_not_found
  | Parts_failed "int list"
  | Failed_to_complete_MPU err
  | Failed_presigned_after int err
  | Failed_to_obtain_presigned
  | Type_error
  | S3_POST_failed int
  | S3_PUT_failed int
  | Files_failed int

type_synonym bytes = "nat list"

text \<open>The fields of \<open>config.js\<close>'s \<open>defaultConfig\<close> that the transfer code reads.\<close>

record config =
  multipart_threshold_gb :: int
  multipart_chunk_size_mb :: int
  retry_attempts :: nat
  user_ignored_patterns :: "string list"

definition defaultConfig :: config where
  "defaultConfig =
     \<lparr>multipart_threshold_gb = 1, multipart_chunk_size_mb = 256, retry_attempts = 3,
      user_ignored_patterns =
        [''.DS_Store'', ''Thumbs.db'', ''*.tmp'', ''~$*'', ''__pycache__/'', ''*.pyc'', ''*.pyo'',
         ''.log'']\<rparr>"

text \<open>
  A directory as \<open>readdir\<close> with \<open>withFileTypes\<close> shows it: regular files, directories with
  their entries, directories that cannot be read, and entries that are neither file nor
  directory.  What \<open>fsPromises.stat\<close> reports about a path.
\<close>

datatype dirent =
    File_ent string
  | Dir_ent string "dirent list"
  | Unreadable_ent string err
  | Other_ent string

datatype stats = IsDirectory | IsFile int | IsOther

text \<open>
  \<open>class UploadPartTaskJS_MPU\<close>.  The JavaScript \<open>null\<close> of \<open>data\<close>, \<open>checksumSHA256\<close>,
  \<open>etag\<close> and \<open>error\<close> is \<open>None\<close>.  The field \<open>size\<close> is named \<open>size_p\<close> here.
\<close>

record UploadPartTaskJS_MPU =
  partNumber :: int
  offset :: int
  size_p :: int
  filePath :: string
  data :: "bytes option"
  checksumSHA256 :: "string option"
  etag :: "string option"
  error :: "err option"
  retries :: nat

definition new_UploadPartTaskJS_MPU :: "int \<Rightarrow> int \<Rightarrow> int \<Rightarrow> string \<Rightarrow> UploadPartTaskJS_MPU" where
  "new_UploadPartTaskJS_MPU pn off sz fp =
     \<lparr>partNumber = pn, offset = off, size_p = sz, filePath = fp,
      data = None, checksumSHA256 = None, etag = None, error = None, retries = 0\<rparr>"

section \<open>Multipart transfer: partitioning\<close>

definition S3_MAX_PARTS_JS_MPU :: int where
  "S3_MAX_PARTS_JS_MPU = 10000"

text \<open>
  \<^verbatim>\<open>let chunkSize = config.multipart_chunk_size_mb * 1024 * 1024;
if (chunkSize < 5 * 1024 * 1024) chunkSize = 5 * 1024 * 1024;\<close>
\<close>

definition chunkSize_of :: "config \<Rightarrow> int" where
  "chunkSize_of cfg =
     (let chunkSize = multipart_chunk_size_mb cfg * 1024 * 1024
      in if chunkSize < 5 * 1024 * 1024 then 5 * 1024 * 1024 else chunkSize)"

text \<open>\<open>Math.ceil (a / b)\<close> on integers, for a positive divisor.\<close>

definition math_ceil_div :: "int \<Rightarrow> int \<Rightarrow> int" where
  "math_ceil_div a b = - ((- a) div b)"

definition numParts_of :: "config \<Rightarrow> int \<Rightarrow> int" where
  "numParts_of cfg fileSize = math_ceil_div fileSize (chunkSize_of cfg)"

text \<open>
  The loop that fills \<open>partTasks\<close>:
  \<^verbatim>\<open>for (let i = 0; i < numParts; i++) {
    const size = Math.min(chunkSize, fileSize - (i * chunkSize));
    if (size <= 0) continue;
    partTasks.push(new UploadPartTaskJS_MPU(i + 1, i * chunkSize, size, filePath));
}\<close>
\<close>

function build_partTasks :: "string \<Rightarrow> int \<Rightarrow> int \<Rightarrow> int \<Rightarrow> int \<Rightarrow> UploadPartTaskJS_MPU list" where
  "build_partTasks fp chunkSize fileSize numParts i =
     (if i < numParts then
        (let sz = min chunkSize (fileSize - i * chunkSize)
         in if sz \<le> 0 then build_partTasks fp chunkSize fileSize numParts (i + 1)
            else new_UploadPartTaskJS_MPU (i + 1) (i * chunkSize) sz fp
                 # build_partTasks fp chunkSize fileSize numParts (i + 1))
      else [])"
  by pat_completeness auto
termination
  by (relation "measure (\<lambda>(fp, chunkSize, fileSize, numParts, i). nat (numParts - i))") auto

definition partTasks_of :: "config \<Rightarrow> string \<Rightarrow> int \<Rightarrow> UploadPartTaskJS_MPU list" where
  "partTasks_of cfg fp fileSize =
     (let numParts = numParts_of cfg fileSize
      in if numParts > 0 then build_partTasks fp (chunkSize_of cfg) fileSize numParts 0 else [])"

declare build_partTasks.simps [simp del]

section \<open>Collaborators\<close>

text \<open>
  Object literals sent to the control plane are association lists of field name and value.
\<close>

record PartInfo =
  PartNumber :: int
  ETag :: string
  ChecksumSHA256 :: "string option"

datatype pval = PStr string | PNum int | PNull | PParts "PartInfo list"

type_synonym payload = "(string \<times> pval) list"

definition opt_str :: "string option \<Rightarrow> pval" where
  "opt_str v = (case v of None \<Rightarrow> PNull | Some s \<Rightarrow> PStr s)"

text \<open>
  What a control-plane call resolves to is the body the server sent: an object, or
  \<open>null\<close>/\<open>undefined\<close> (\<open>Nullish\<close>, reading a property of it throws a \<open>TypeError\<close>), or
  another falsy value such as the empty string (\<open>Falsy\<close>, every property of it is
  \<open>undefined\<close>).
\<close>

datatype 'a body = Obj 'a | Nullish | Falsy

record presign_response =
  url :: "string option"
  fields_p :: "(string \<times> string) list option"
  s3_key_single :: "string option"

record start_response =
  upload_id :: "string option"
  s3_key_start :: "string option"

record part_url_response =
  presigned_url :: "string option"

record complete_response =
  Location :: "string option"

text \<open>
  The storage helpers of the client resolve to \<open>{ status, headers }\<close>; of the headers only
  \<open>etag\<close> is read.
\<close>

record s3_response =
  status_code :: int
  etag_header :: "string option"

text \<open>
  The \<open>apiClient\<close> argument of the transfer functions, one field per method.  A call either
  rejects (\<open>Inl\<close>) or resolves (\<open>Inr\<close>).  The methods that are called inside a retry loop
  take the attempt number first, so that the collaborator may answer each attempt
  differently; the storage PUT also takes the part number (0 for the single-unit PUT).
\<close>

record apiClient =
  getPresignedUrlSingle :: "nat \<Rightarrow> payload \<Rightarrow> err + presign_response body"
  confirmSingleUpload :: "payload \<Rightarrow> err + unit"
  startMultipartUpload :: "payload \<Rightarrow> err + start_response body"
  getPresignedUrlForPart :: "nat \<Rightarrow> payload \<Rightarrow> err + part_url_response body"
  completeMultipartUpload :: "payload \<Rightarrow> err + complete_response body"
  abortMultipartUpload :: "payload \<Rightarrow> err + unit"
  uploadToS3PresignedPost ::
    "string option \<Rightarrow> (string \<times> string) list \<Rightarrow> string \<Rightarrow> string \<Rightarrow> string \<Rightarrow> err + s3_response"
  uploadPartToS3PresignedPut :: "int \<Rightarrow> nat \<Rightarrow> string option \<Rightarrow> bytes option \<Rightarrow> err + s3_response"

text \<open>
  The file system and the helpers of \<open>utils.js\<close> and of Node that are not modelled further:
  \<open>read_at fp size offset\<close> is the outcome of opening \<open>fp\<close>, reading up to \<open>size\<close> bytes at
  \<open>offset\<close> and closing it, \<open>Inr\<close> holding the bytes actually read; \<open>readdir_tree p\<close> is
  the outcome of \<open>readdir\<close> on the directory \<open>p\<close>, with the entries of its subdirectories;
  \<open>isPathIgnored\<close> is the ignore predicate of \<open>utils.js\<close>, whose pattern syntax is not
  modelled.
\<close>

record sys =
  extname :: "string \<Rightarrow> string"
  basename :: "string \<Rightarrow> string"
  getMimeType :: "string \<Rightarrow> string"
  calculateSHA256Checksum :: "string \<Rightarrow> err + string"
  calculateSHA256ChecksumForBytes :: "bytes \<Rightarrow> string"
  read_at :: "string \<Rightarrow> int \<Rightarrow> int \<Rightarrow> err + bytes"
  readFile :: "string \<Rightarrow> err + bytes"
  getFileSize :: "string \<Rightarrow> err + int"
  isPathIgnored :: "string \<Rightarrow> string \<Rightarrow> string list \<Rightarrow> bool"
  resolve :: "string \<Rightarrow> string"
  stat :: "string \<Rightarrow> err + stats"
  readdir_tree :: "string \<Rightarrow> err + dirent list"

text \<open>
  The calls made to the control plane and to storage, and the timer waits, in the order
  they are made.
\<close>

datatype event =
    Ev_getPresignedUrlSingle nat
  | Ev_uploadToS3PresignedPost
  | Ev_uploadPut
  | Ev_confirmSingleUpload
  | Ev_startMultipartUpload
  | Ev_getPresignedUrlForPart int nat
  | Ev_uploadPartToS3PresignedPut int nat
  | Ev_completeMultipartUpload "PartInfo list"
  | Ev_abortMultipartUpload
  | Ev_setTimeout nat

text \<open>The object the transfer functions return, \<open>{ file, status, s3_key, location }\<close>; the
  field \<open>file\<close> is named \<open>file_r\<close> here.\<close>

record upload_result =
  file_r :: string
  status :: string
  s3_key :: "string option"
  location :: "string option"

section \<open>Helpers of \<open>utils.js\<close>\<close>

definition to_lower_char :: "char \<Rightarrow> char" where
  "to_lower_char c =
     (let n = (of_char c :: nat)
      in if 65 \<le> n \<and> n \<le> 90 then char_of (n + 32) else c)"

definition DISALLOWED_EXTENSIONS :: "string list" where
  "DISALLOWED_EXTENSIONS = [''.dll'', ''.exe'']"

definition isFileTypeDisallowed :: "sys \<Rightarrow> string \<Rightarrow> bool" where
  "isFileTypeDisallowed sy fp = (map to_lower_char (extname sy fp) \<in> set DISALLOWED_EXTENSIONS)"

text \<open>
  \<open>headers.get ("etag")?.replace (/"/g, "")\<close>: the header with its double quotes removed,
  and the falsiness test \<open>!etag\<close> of a string that may be missing.
\<close>

definition strip_quotes :: "string \<Rightarrow> string" where
  "strip_quotes s = filter (\<lambda>c. c \<noteq> CHR 0x22) s"

definition etag_of :: "s3_response \<Rightarrow> string option" where
  "etag_of r = map_option strip_quotes (etag_header r)"

definition falsy :: "string option \<Rightarrow> bool" where
  "falsy v = (v = None \<or> v = Some [])"

section \<open>Multipart transfer\<close>

text \<open>
  \<open>UploadPartTaskJS_MPU.readAndChecksum\<close>: the part's bytes are read and hashed; a read that
  fails or returns another number of bytes than \<open>size\<close> is recorded in \<open>error\<close> and thrown.
\<close>

definition readAndChecksum :: "sys \<Rightarrow> UploadPartTaskJS_MPU \<Rightarrow> UploadPartTaskJS_MPU \<times> (err + unit)" where
  "readAndChecksum sy pt =
     (case (case read_at sy (filePath pt) (size_p pt) (offset pt) of
              Inl e \<Rightarrow> Inl e
            | Inr buf \<Rightarrow>
                if int (length buf) \<noteq> size_p pt
                then Inl (Read_incorrect_data_size (partNumber pt)) else Inr buf) of
        Inl e \<Rightarrow>
          (let e' = Error_reading_part (partNumber pt) e
           in (pt\<lparr>error := Some e'\<rparr>, Inl e'))
      | Inr buf \<Rightarrow>
          (pt\<lparr>data := Some buf,
              checksumSHA256 := Some (calculateSHA256ChecksumForBytes sy buf)\<rparr>, Inr ()))"

text \<open>
  What the part uploads need from the session: \<open>s3UploadId\<close>, \<open>backendS3Key\<close>, \<open>collection\<close>
  and \<open>originalFileMimeType\<close>.
\<close>

record part_ctx =
  s3UploadId :: "string option"
  backendS3Key :: "string option"
  collection_c :: string
  originalFileMimeType :: string

text \<open>
  The \<open>try\<close> block of one attempt in \<open>_uploadSinglePartWithRetryJS_MPU\<close>: request the part's
  URL, PUT the bytes, read the ETag.  It yields the ETag or the error that was thrown.
\<close>

definition part_attempt ::
  "apiClient \<Rightarrow> part_ctx \<Rightarrow> UploadPartTaskJS_MPU \<Rightarrow> nat \<Rightarrow> event list \<times> (err + string)" where
  "part_attempt api ctx partTask attempt =
     (let getUrlPayload =
            [(''upload_id'', opt_str (s3UploadId ctx)), (''part_number'', PNum (partNumber partTask)),
             (''file_name'', opt_str (backendS3Key ctx)), (''collection'', PStr (collection_c ctx)),
             (''checksum'', opt_str (checksumSHA256 partTask)),
             (''content_type'', PStr (originalFileMimeType ctx))];
          ev1 = Ev_getPresignedUrlForPart (partNumber partTask) attempt;
          ev2 = Ev_uploadPartToS3PresignedPut (partNumber partTask) attempt
      in case getPresignedUrlForPart api attempt getUrlPayload of
           Inl e \<Rightarrow> ([ev1], Inl e)
         | Inr Nullish \<Rightarrow> ([ev1], Inl Type_error)
         | Inr presignedPartInfo \<Rightarrow>
             (case uploadPartToS3PresignedPut api (partNumber partTask) attempt
                     (case presignedPartInfo of Obj r \<Rightarrow> presigned_url r | _ \<Rightarrow> None)
                     (data partTask) of
                Inl e \<Rightarrow> ([ev1, ev2], Inl e)
              | Inr s3Response \<Rightarrow>
                  (case etag_of s3Response of
                     None \<Rightarrow> ([ev1, ev2], Inl ETag_not_found)
                   | Some t \<Rightarrow>
                       if t = [] then ([ev1, ev2], Inl ETag_not_found)
                       else ([ev1, ev2], Inr t))))"

text \<open>
  The retry loop of \<open>_uploadSinglePartWithRetryJS_MPU\<close>, from \<open>attempt\<close> on:
  \<^verbatim>\<open>for (let attempt = 0; attempt <= config.retry_attempts; attempt++) {
    partTask.retries = attempt;
    try { ...; partTask.etag = etag; return { PartNumber, ETag, ChecksumSHA256 }; }
    catch (error) {
        if (attempt >= config.retry_attempts) { partTask.error = error; return null; }
        await new Promise(resolve => setTimeout(resolve, (2 ** attempt) * 1000));
    }
}
return null;\<close>
  The result is the trace, the part record as the loop leaves it, and the returned value
  (\<open>None\<close> for \<open>null\<close>).
\<close>

function part_attempts ::
  "apiClient \<Rightarrow> nat \<Rightarrow> part_ctx \<Rightarrow> UploadPartTaskJS_MPU \<Rightarrow> nat
     \<Rightarrow> event list \<times> UploadPartTaskJS_MPU \<times> PartInfo option" where
  "part_attempts api n ctx partTask attempt =
     (if attempt \<le> n then
        (let pt = partTask\<lparr>retries := attempt\<rparr>;
             r = part_attempt api ctx pt attempt
         in case snd r of
              Inr t \<Rightarrow>
                (fst r, pt\<lparr>etag := Some t\<rparr>,
                 Some \<lparr>PartNumber = partNumber pt, ETag = t, ChecksumSHA256 = checksumSHA256 pt\<rparr>)
            | Inl e \<Rightarrow>
                if attempt \<ge> n then (fst r, pt\<lparr>error := Some e\<rparr>, None)
                else (let rest = part_attempts api n ctx pt (attempt + 1)
                      in (fst r @ Ev_setTimeout (2 ^ attempt * 1000) # fst rest, snd rest)))
      else ([], partTask, None))"
  by pat_completeness auto
termination
  by (relation "measure (\<lambda>(api, n, ctx, partTask, attempt). Suc n - attempt)") auto

declare part_attempts.simps [simp del]

text \<open>
  \<open>_uploadSinglePartWithRetryJS_MPU\<close>.  The promise it returns either rejects (\<open>Inl\<close>, when
  the part cannot be read or already carries an error) or fulfils with the part's
  \<open>{ PartNumber, ETag, ChecksumSHA256 }\<close> or with \<open>null\<close>.
\<close>

definition uploadSinglePartWithRetryJS_MPU ::
  "sys \<Rightarrow> apiClient \<Rightarrow> config \<Rightarrow> part_ctx \<Rightarrow> UploadPartTaskJS_MPU
     \<Rightarrow> event list \<times> UploadPartTaskJS_MPU \<times> (err + PartInfo option)" where
  "uploadSinglePartWithRetryJS_MPU sy api cfg ctx partTask =
     (let rd = (if data partTask = None \<or> falsy (checksumSHA256 partTask)
                then readAndChecksum sy partTask else (partTask, Inr ()))
      in case snd rd of
           Inl e \<Rightarrow> ([], fst rd, Inl e)
         | Inr _ \<Rightarrow>
             (case error (fst rd) of
                Some e \<Rightarrow> ([], fst rd, Inl e)
              | None \<Rightarrow>
                  (let r = part_attempts api (retry_attempts cfg) ctx (fst rd) 0
                   in (fst r, fst (snd r), Inr (snd (snd r))))))"

text \<open>
  The part uploads are started together and awaited with \<open>Promise.allSettled\<close>.  Every
  answer of the collaborators is a function of the part and of the attempt, so the
  outcome of one part does not depend on how the parts interleave; the trace lists the
  calls part by part.
\<close>

fun upload_parts ::
  "sys \<Rightarrow> apiClient \<Rightarrow> config \<Rightarrow> part_ctx \<Rightarrow> UploadPartTaskJS_MPU list
     \<Rightarrow> event list \<times> UploadPartTaskJS_MPU list \<times> (err + PartInfo option) list" where
  "upload_parts sy api cfg ctx [] = ([], [], [])"
| "upload_parts sy api cfg ctx (pt # pts) =
     (let r = uploadSinglePartWithRetryJS_MPU sy api cfg ctx pt;
          rs = upload_parts sy api cfg ctx pts
      in (fst r @ fst rs, fst (snd r) # fst (snd rs), snd (snd r) # snd (snd rs)))"

text \<open>
  \<^verbatim>\<open>results.forEach(result => {
    if (result.status === 'fulfilled' && result.value) uploadedPartsInfo.push(result.value);
});\<close>
\<close>

fun fulfilled_values :: "(err + PartInfo option) list \<Rightarrow> PartInfo list" where
  "fulfilled_values [] = []"
| "fulfilled_values (Inr (Some v) # rs) = v # fulfilled_values rs"
| "fulfilled_values (_ # rs) = fulfilled_values rs"

text \<open>
  The eager preparation loop: every part is read and hashed before any upload; the first
  failure is thrown.
\<close>

fun prepare_parts :: "sys \<Rightarrow> UploadPartTaskJS_MPU list \<Rightarrow> err + UploadPartTaskJS_MPU list" where
  "prepare_parts sy [] = Inr []"
| "prepare_parts sy (pt # pts) =
     (case readAndChecksum sy pt of
        (pt', Inl e) \<Rightarrow> Inl e
      | (pt', Inr _) \<Rightarrow>
          (case error pt' of
             Some e \<Rightarrow> Inl (Failed_to_prepare_part (partNumber pt') e)
           | None \<Rightarrow>
               (case prepare_parts sy pts of Inl e \<Rightarrow> Inl e | Inr pts' \<Rightarrow> Inr (pt' # pts'))))"

text \<open>
  The \<open>try\<close> block around \<open>startMultipartUpload\<close>: whatever is thrown inside, also the
  \<open>Backend MPU start error.\<close> of a response without \<open>upload_id\<close> or \<open>s3_key\<close>, is rethrown
  as \<open>Failed to initiate MPU: ...\<close>.
\<close>

definition start_session :: "apiClient \<Rightarrow> payload \<Rightarrow> err + string option \<times> string option" where
  "start_session api startPayload =
     (case (case startMultipartUpload api startPayload of
              Inl e \<Rightarrow> Inl e
            | Inr Nullish \<Rightarrow> Inl Type_error
            | Inr startResponse \<Rightarrow>
                (let s3UploadId = (case startResponse of Obj r \<Rightarrow> upload_id r | _ \<Rightarrow> None);
                     backendS3Key = (case startResponse of Obj r \<Rightarrow> s3_key_start r | _ \<Rightarrow> None)
                 in if falsy s3UploadId \<or> falsy backendS3Key then Inl Backend_MPU_start_error
                    else Inr (s3UploadId, backendS3Key))) of
        Inl e \<Rightarrow> Inl (Failed_to_initiate_MPU e)
      | Inr v \<Rightarrow> Inr v)"

text \<open>
  The end of \<open>handleMultipartUpload\<close>, once all part uploads have settled: abort and throw
  when a part is missing, otherwise complete, and abort and throw when completing fails.
  The outcome of \<open>abortMultipartUpload\<close> is only logged: both branches of its \<open>try\<close>/\<open>catch\<close>
  continue to the same \<open>throw\<close>.
\<close>

definition mpu_finish ::
  "apiClient \<Rightarrow> part_ctx \<Rightarrow> string \<Rightarrow> string option \<Rightarrow> int \<Rightarrow> string
     \<Rightarrow> UploadPartTaskJS_MPU list \<Rightarrow> PartInfo list \<Rightarrow> event list \<times> (err + upload_result)" where
  "mpu_finish api ctx baseName targetSubPath fileSize overallChecksum partTasks uploadedPartsInfo =
     (let abortPayload =
            [(''upload_id'', opt_str (s3UploadId ctx)), (''s3_key'', opt_str (backendS3Key ctx)),
             (''file_name'', opt_str (backendS3Key ctx)), (''collection'', PStr (collection_c ctx))]
      in if length partTasks > 0 \<and> length uploadedPartsInfo \<noteq> length partTasks then
           (let failedParts = map partNumber (filter (\<lambda>pt. falsy (etag pt)) partTasks)
            in case abortMultipartUpload api abortPayload of
                 Inr _ \<Rightarrow> ([Ev_abortMultipartUpload], Inl (Parts_failed failedParts))
               | Inl abortError \<Rightarrow> ([Ev_abortMultipartUpload], Inl (Parts_failed failedParts)))
         else
           (let parts = sort_key PartNumber uploadedPartsInfo;
                completePayload =
                  [(''upload_id'', opt_str (s3UploadId ctx)), (''parts'', PParts parts),
                   (''s3_key'', opt_str (backendS3Key ctx)), (''file_name'', PStr baseName),
                   (''collection'', PStr (collection_c ctx)), (''checksum'', PStr overallChecksum),
                   (''final_file_size'', PNum fileSize), (''collection_path'', opt_str targetSubPath),
                   (''content_type'', PStr (originalFileMimeType ctx))]
            in case (case completeMultipartUpload api completePayload of
                       Inl e \<Rightarrow> Inl e
                     | Inr Nullish \<Rightarrow> Inl Type_error
                     | Inr (Obj r) \<Rightarrow> Inr (Location r)
                     | Inr Falsy \<Rightarrow> Inr None) of
                 Inr loc \<Rightarrow>
                   ([Ev_completeMultipartUpload parts],
                    Inr \<lparr>file_r = baseName, status = ''success'', s3_key = backendS3Key ctx,
                         location = loc\<rparr>)
               | Inl e \<Rightarrow>
                   (case abortMultipartUpload api abortPayload of
                      Inr _ \<Rightarrow>
                        ([Ev_completeMultipartUpload parts, Ev_abortMultipartUpload],
                         Inl (Failed_to_complete_MPU e))
                    | Inl abortError \<Rightarrow>
                        ([Ev_completeMultipartUpload parts, Ev_abortMultipartUpload],
                         Inl (Failed_to_complete_MPU e)))))"

text \<open>
  \<open>handleMultipartUpload\<close>.  The result is the trace, the part records as they are when all
  part uploads have settled (\<open>[]\<close> when the transfer fails before the part uploads start),
  and what the function returns (\<open>Inr\<close>) or throws (\<open>Inl\<close>).  Progress notifications and
  logging are left out.
\<close>

definition handleMultipartUpload ::
  "sys \<Rightarrow> apiClient \<Rightarrow> config \<Rightarrow> string \<Rightarrow> int \<Rightarrow> string \<Rightarrow> string option
     \<Rightarrow> event list \<times> UploadPartTaskJS_MPU list \<times> (err + upload_result)" where
  "handleMultipartUpload sy api cfg fp fileSize collection targetSubPath =
     (let baseName = basename sy fp
      in if isFileTypeDisallowed sy fp then ([], [], Inl (Disallowed_file_type (extname sy fp)))
         else
           (let numParts = numParts_of cfg fileSize
            in if numParts > S3_MAX_PARTS_JS_MPU then ([], [], Inl (Exceeds_S3_limit numParts))
               else
                 (let mimeType = getMimeType sy fp
                  in case calculateSHA256Checksum sy fp of
                       Inl e \<Rightarrow> ([], [], Inl e)
                     | Inr overallChecksum \<Rightarrow>
                         (let startPayload =
                                [(''file_name'', PStr baseName), (''collection'', PStr collection),
                                 (''upload_target'', opt_str targetSubPath),
                                 (''content_type'', PStr mimeType),
                                 (''overall_checksum'', PStr overallChecksum)]
                          in case start_session api startPayload of
                               Inl e \<Rightarrow> ([Ev_startMultipartUpload], [], Inl e)
                             | Inr (uploadId, key) \<Rightarrow>
                                 (let partTasks = partTasks_of cfg fp fileSize
                                  in if partTasks = [] \<and> fileSize > 0
                                     then ([Ev_startMultipartUpload], [],
                                           Inl No_parts_for_nonempty_file)
                                     else
                                       (case prepare_parts sy partTasks of
                                          Inl e \<Rightarrow> ([Ev_startMultipartUpload], [], Inl e)
                                        | Inr prepared \<Rightarrow>
                                            (let ctx = \<lparr>s3UploadId = uploadId, backendS3Key = key,
                                                        collection_c = collection,
                                                        originalFileMimeType = mimeType\<rparr>;
                                                 up = upload_parts sy api cfg ctx prepared;
                                                 fin = mpu_finish api ctx baseName targetSubPath
                                                         fileSize overallChecksum (fst (snd up))
                                                         (fulfilled_values (snd (snd up)))
                                             in (Ev_startMultipartUpload # fst up @ fst fin,
                                                 fst (snd up), snd fin))))))))"

section \<open>Single-unit transfer\<close>

text \<open>
  The retry loop around \<open>getPresignedUrlSingle\<close>, from \<open>attempt\<close> on:
  \<^verbatim>\<open>for (let attempt = 0; attempt <= config.retry_attempts; attempt++) {
    try {
        presignedInfoResponse = await apiClient.getPresignedUrlSingle(initiatePayload);
        notifyProgress(`... S3 Key: ${presignedInfoResponse.s3_key}`);
        break;
    } catch (error) {
        if (attempt >= config.retry_attempts)
            throw new Error(`Failed to get presigned URL after ${config.retry_attempts + 1} attempts: ${error.message}`);
        await new Promise(resolve => setTimeout(resolve, (2 ** attempt) * 1000));
    }
}\<close>
  It yields the value of \<open>presignedInfoResponse\<close> after the loop, \<open>Nullish\<close> when it is still
  \<open>undefined\<close>, or the error thrown.  \<open>presign_attempt\<close> is the \<open>try\<close> block of one attempt: a
  \<open>null\<close> response makes the \<open>notifyProgress\<close> line throw.
\<close>

definition presign_attempt :: "apiClient \<Rightarrow> payload \<Rightarrow> nat \<Rightarrow> err + presign_response body" where
  "presign_attempt api initiatePayload attempt =
     (case getPresignedUrlSingle api attempt initiatePayload of
        Inl e \<Rightarrow> Inl e
      | Inr Nullish \<Rightarrow> Inl Type_error
      | Inr b \<Rightarrow> Inr b)"

function presign_attempts ::
  "apiClient \<Rightarrow> nat \<Rightarrow> payload \<Rightarrow> nat \<Rightarrow> event list \<times> (err + presign_response body)" where
  "presign_attempts api n initiatePayload attempt =
     (if attempt \<le> n then
        (case presign_attempt api initiatePayload attempt of
           Inr b \<Rightarrow> ([Ev_getPresignedUrlSingle attempt], Inr b)
         | Inl e \<Rightarrow>
             if attempt \<ge> n
             then ([Ev_getPresignedUrlSingle attempt], Inl (Failed_presigned_after (int n + 1) e))
             else (let rest = presign_attempts api n initiatePayload (attempt + 1)
                   in (Ev_getPresignedUrlSingle attempt # Ev_setTimeout (2 ^ attempt * 1000) # fst rest,
                       snd rest)))
      else ([], Inr Nullish))"
  by pat_completeness auto
termination
  by (relation "measure (\<lambda>(api, n, initiatePayload, attempt). Suc n - attempt)") auto

declare presign_attempts.simps [simp del]

text \<open>
  The storage write and the confirmation of \<open>handleSingleFileUpload\<close>, for the authorization
  \<open>presignedInfoResponse\<close>: a form-style POST when it carries \<open>fields\<close>, a PUT of the file's
  bytes otherwise.
\<close>

definition single_transfer ::
  "sys \<Rightarrow> apiClient \<Rightarrow> string \<Rightarrow> int \<Rightarrow> string \<Rightarrow> string option \<Rightarrow> string \<Rightarrow> string
     \<Rightarrow> presign_response \<Rightarrow> event list \<times> (err + upload_result)" where
  "single_transfer sy api fp fileSize collection targetSubPath checksum mimeType presignedInfoResponse =
     (let baseName = basename sy fp;
          written =
            (case fields_p presignedInfoResponse of
               Some flds \<Rightarrow>
                 (case uploadToS3PresignedPost api (url presignedInfoResponse) flds fp baseName mimeType of
                    Inl e \<Rightarrow> ([Ev_uploadToS3PresignedPost], Inl e)
                  | Inr s3Response \<Rightarrow>
                      if status_code s3Response = 204
                      then ([Ev_uploadToS3PresignedPost], Inr (etag_of s3Response))
                      else ([Ev_uploadToS3PresignedPost], Inl (S3_POST_failed (status_code s3Response))))
             | None \<Rightarrow>
                 (case readFile sy fp of
                    Inl e \<Rightarrow> ([], Inl e)
                  | Inr fileData \<Rightarrow>
                      (case uploadPartToS3PresignedPut api 0 0 (url presignedInfoResponse) (Some fileData) of
                         Inl e \<Rightarrow> ([Ev_uploadPut], Inl e)
                       | Inr s3ResponsePut \<Rightarrow>
                           if status_code s3ResponsePut = 200
                           then ([Ev_uploadPut], Inr (etag_of s3ResponsePut))
                           else ([Ev_uploadPut], Inl (S3_PUT_failed (status_code s3ResponsePut))))))
      in case snd written of
           Inl e \<Rightarrow> (fst written, Inl e)
         | Inr s3ETag \<Rightarrow>
             (let confirmPayload =
                    [(''s3_key'', opt_str (s3_key_single presignedInfoResponse)),
                     (''file_name'', PStr baseName), (''collection'', PStr collection),
                     (''size_bytes'', PNum fileSize), (''checksum'', PStr checksum),
                     (''file_type'', PStr mimeType), (''collection_path'', opt_str targetSubPath),
                     (''s3_etag'', (if falsy s3ETag then PNull else opt_str s3ETag))]
              in case confirmSingleUpload api confirmPayload of
                   Inl e \<Rightarrow> (fst written @ [Ev_confirmSingleUpload], Inl e)
                 | Inr _ \<Rightarrow>
                     (fst written @ [Ev_confirmSingleUpload],
                      Inr \<lparr>file_r = baseName, status = ''success'',
                           s3_key = s3_key_single presignedInfoResponse, location = None\<rparr>)))"

definition initiatePayload_of :: "sys \<Rightarrow> string \<Rightarrow> int \<Rightarrow> string \<Rightarrow> string option \<Rightarrow> string \<Rightarrow> payload" where
  "initiatePayload_of sy fp fileSize collection targetSubPath checksum =
     [(''file_name'', PStr (basename sy fp)), (''collection'', PStr collection),
      (''size'', PNum fileSize), (''checksum'', PStr checksum),
      (''file_type'', PStr (getMimeType sy fp)), (''collection_path'', opt_str targetSubPath)]"

text \<open>
  \<open>handleSingleFileUpload\<close>.  The outer \<open>catch\<close> logs and rethrows the error it caught, so
  every error of the \<open>try\<close> block reaches the caller as it is.
\<close>

definition handleSingleFileUpload ::
  "sys \<Rightarrow> apiClient \<Rightarrow> config \<Rightarrow> string \<Rightarrow> int \<Rightarrow> string \<Rightarrow> string option
     \<Rightarrow> event list \<times> (err + upload_result)" where
  "handleSingleFileUpload sy api cfg fp fileSize collection targetSubPath =
     (let baseName = basename sy fp
      in if isFileTypeDisallowed sy fp then ([], Inl (Disallowed_file_type (extname sy fp)))
         else
           (case calculateSHA256Checksum sy fp of
              Inl e \<Rightarrow> ([], Inl e)
            | Inr checksum \<Rightarrow>
                (let mimeType = getMimeType sy fp;
                     initiatePayload =
                       initiatePayload_of sy fp fileSize collection targetSubPath checksum;
                     auth = presign_attempts api (retry_attempts cfg) initiatePayload 0
                 in case snd auth of
                      Inl e \<Rightarrow> (fst auth, Inl e)
                    | Inr (Obj presignedInfoResponse) \<Rightarrow>
                        (let w = single_transfer sy api fp fileSize collection targetSubPath
                                   checksum mimeType presignedInfoResponse
                         in (fst auth @ fst w, snd w))
                    | Inr _ \<Rightarrow> (fst auth, Inl Failed_to_obtain_presigned))))"

section \<open>Directory scanner\<close>

text \<open>
  Node's \<open>path\<close> functions, modelled on the inputs for which they have nothing to normalise
  or to resolve; \<open>sep\<close> is the separator of the platform, a forward slash or a backslash.
  \<^item> \<open>path_join sep a b\<close> is \<open>path.join (a, b)\<close> when \<open>a\<close> is empty or a path in normal form
    that does not end with a separator and is not \<open>.\<close>, and \<open>b\<close> is empty or names joined by the
    separator: \<open>path.join\<close> then returns the non-empty arguments joined by the separator.
    A first argument that \<open>path.join\<close> would rewrite (a trailing or doubled separator, a
    \<open>.\<close> or \<open>..\<close> segment, forward slashes on Windows) is outside this model.
  \<^item> \<open>path_relative from p\<close> is \<open>path.relative (from, p)\<close> when \<open>from\<close> is an absolute path in
    normal form, other than a file-system root, and \<open>p\<close> is \<open>from\<close> followed by the separator
    and names joined by the separator: \<open>path.resolve\<close> then leaves both unchanged and the
    result is what follows \<open>from\<close> and the separator.  A relative or drive-relative \<open>from\<close>,
    which Node resolves against the working directory, is outside this model.
  \<^item> \<open>path_dirname p\<close> is \<open>path.dirname (p)\<close> for a relative path written with \<open>/\<close> that does
    not end with \<open>/\<close>, as the scanner stores it.
  The scanner is therefore modelled for a scan root that is an absolute path in normal form
  (what \<open>path.resolve\<close> returns, as in \<open>CUEUploader.upload\<close>) and for entry names as \<open>readdir\<close>
  returns them; \<open>absolute_normalized\<close> and \<open>plain_name\<close> below state both conditions.
\<close>

definition path_join :: "char \<Rightarrow> string \<Rightarrow> string \<Rightarrow> string" where
  "path_join sep a b =
     (if a = [] \<and> b = [] then ''.'' else if a = [] then b else if b = [] then a else a @ sep # b)"

definition path_relative :: "string \<Rightarrow> string \<Rightarrow> string" where
  "path_relative from p = drop (length from + 1) p"

definition path_dirname :: "string \<Rightarrow> string" where
  "path_dirname p =
     (if CHR ''/'' \<notin> set p then ''.''
      else rev (tl (dropWhile (\<lambda>c. c \<noteq> CHR ''/'') (rev p))))"

text \<open>\<open>s.replace (/\\/g, '/')\<close>: every backslash becomes a forward slash.\<close>

definition replace_backslashes :: "string \<Rightarrow> string" where
  "replace_backslashes s = map (\<lambda>c. if c = CHR 0x5C then CHR ''/'' else c) s"

text \<open>
  The objects the scanner pushes: \<open>{ localPath, relativePath, size, status, errorMessage }\<close>;
  \<open>size\<close> and \<open>status\<close> are named \<open>size_t\<close> and \<open>status_t\<close> here.
\<close>

record fileTask =
  localPath :: string
  relativePath :: string
  size_t :: int
  status_t :: string
  errorMessage :: "err option"

fun name_of :: "dirent \<Rightarrow> string" where
  "name_of (File_ent n) = n"
| "name_of (Dir_ent n es) = n"
| "name_of (Unreadable_ent n e) = n"
| "name_of (Other_ent n) = n"

text \<open>
  \<open>scanFolderForUpload\<close> over the entries \<open>items\<close> of \<open>folderPath\<close>.  An ignored entry is skipped
  with its subtree, a disallowed file is skipped, and a failing \<open>readdir\<close> or \<open>getFileSize\<close>
  rejects the whole scan.
\<close>

fun scanFolderForUpload ::
  "sys \<Rightarrow> char \<Rightarrow> string list \<Rightarrow> string \<Rightarrow> string \<Rightarrow> dirent list \<Rightarrow> err + fileTask list \<times> int" where
  "scanFolderForUpload sy sep pats rootForRelativePath folderPath [] = Inr ([], 0)"
| "scanFolderForUpload sy sep pats rootForRelativePath folderPath (Dir_ent n sub # items) =
     (let itemPath = path_join sep folderPath n
      in if isPathIgnored sy itemPath rootForRelativePath pats
         then scanFolderForUpload sy sep pats rootForRelativePath folderPath items
         else
           (case scanFolderForUpload sy sep pats rootForRelativePath itemPath sub of
              Inl e \<Rightarrow> Inl e
            | Inr subFolderResult \<Rightarrow>
                (case scanFolderForUpload sy sep pats rootForRelativePath folderPath items of
                   Inl e \<Rightarrow> Inl e
                 | Inr rest \<Rightarrow>
                     Inr (fst subFolderResult @ fst rest, snd subFolderResult + snd rest))))"
| "scanFolderForUpload sy sep pats rootForRelativePath folderPath (Unreadable_ent n e # items) =
     (let itemPath = path_join sep folderPath n
      in if isPathIgnored sy itemPath rootForRelativePath pats
         then scanFolderForUpload sy sep pats rootForRelativePath folderPath items
         else Inl e)"
| "scanFolderForUpload sy sep pats rootForRelativePath folderPath (File_ent n # items) =
     (let itemPath = path_join sep folderPath n
      in if isPathIgnored sy itemPath rootForRelativePath pats
         then scanFolderForUpload sy sep pats rootForRelativePath folderPath items
         else if isFileTypeDisallowed sy itemPath
         then scanFolderForUpload sy sep pats rootForRelativePath folderPath items
         else
           (case getFileSize sy itemPath of
              Inl e \<Rightarrow> Inl e
            | Inr fileSize \<Rightarrow>
                (case scanFolderForUpload sy sep pats rootForRelativePath folderPath items of
                   Inl e \<Rightarrow> Inl e
                 | Inr rest \<Rightarrow>
                     Inr (\<lparr>localPath = itemPath,
                           relativePath = replace_backslashes (path_relative rootForRelativePath itemPath),
                           size_t = fileSize, status_t = ''pending'', errorMessage = None\<rparr>
                          # fst rest,
                          fileSize + snd rest))))"
| "scanFolderForUpload sy sep pats rootForRelativePath folderPath (Other_ent n # items) =
     scanFolderForUpload sy sep pats rootForRelativePath folderPath items"

section \<open>Folder orchestrator\<close>

definition multipartThresholdBytes :: "config \<Rightarrow> int" where
  "multipartThresholdBytes cfg = multipart_threshold_gb cfg * (1024 ^ 3)"

text \<open>
  The destination of one file and the \<open>try\<close> block of its task in
  \<open>scheduleNextFileInFolder\<close>:
  \<^verbatim>\<open>let effectiveApiTargetSubPath = targetSubPath || "";
if (path.dirname(fileTask.relativePath) !== '.')
    effectiveApiTargetSubPath =
        path.join(effectiveApiTargetSubPath, path.dirname(fileTask.relativePath)).replace(/\\/g, '/');
...
const multipartThresholdBytes = config.multipart_threshold_gb * (1024 ** 3);
if (fileTask.size > multipartThresholdBytes) result = await multiUploadHandlerLib(...);
else result = await singleUploadHandlerLib(...);\<close>
\<close>

text \<open>
  In \<open>effectiveApiTargetSubPath\<close> the first argument of \<open>path.join\<close> is the caller's
  \<open>targetSubPath\<close>; the model covers a \<open>targetSubPath\<close> that is missing, empty or in the form
  stated for \<open>path_join\<close>, such as \<open>js_uploads/folder_uploads\<close>.  On Windows \<open>path.join\<close>
  writes every separator as a backslash and the \<open>replace\<close> turns them all into forward
  slashes, which is the value computed here.
\<close>

definition effectiveApiTargetSubPath :: "char \<Rightarrow> string option \<Rightarrow> fileTask \<Rightarrow> string" where
  "effectiveApiTargetSubPath sep targetSubPath ft =
     (let base = (case targetSubPath of None \<Rightarrow> [] | Some s \<Rightarrow> s)
      in if path_dirname (relativePath ft) \<noteq> ''.''
         then replace_backslashes (path_join sep base (path_dirname (relativePath ft)))
         else base)"

definition run_file_task ::
  "sys \<Rightarrow> apiClient \<Rightarrow> config \<Rightarrow> char \<Rightarrow> string \<Rightarrow> string option \<Rightarrow> fileTask
     \<Rightarrow> event list \<times> (err + upload_result)" where
  "run_file_task sy api cfg sep collection targetSubPath ft =
     (let target = effectiveApiTargetSubPath sep targetSubPath ft
      in if size_t ft > multipartThresholdBytes cfg
         then (let r = handleMultipartUpload sy api cfg (localPath ft) (size_t ft) collection (Some target)
               in (fst r, snd (snd r)))
         else handleSingleFileUpload sy api cfg (localPath ft) (size_t ft) collection (Some target))"

text \<open>
  An entry of \<open>results\<close>: the task, with the returned object spread over it when the
  transfer succeeded.
\<close>

record file_result =
  task :: fileTask
  uploaded :: "upload_result option"

text \<open>
  The variables of \<open>processFolderUpload\<close> that the tasks share.  \<open>activeFileUploads\<close> holds the
  indices of the tasks in flight.
\<close>

record folder_state =
  activeFileUploads :: "nat list"
  currentIndex :: nat
  results :: "file_result list"
  successfulUploads :: int
  failedUploads :: int
  overallUploadedBytesInFolder :: int
  trace :: "event list"

text \<open>
  \<open>activeFileUploads.size < fileConcurrency\<close>: \<open>fileConcurrency\<close> is the number the argument
  converts to, \<open>None\<close> when that is \<open>NaN\<close>, and every comparison with \<open>NaN\<close> is false.
\<close>

definition below_concurrency :: "nat \<Rightarrow> int option \<Rightarrow> bool" where
  "below_concurrency n fileConcurrency =
     (case fileConcurrency of None \<Rightarrow> False | Some k \<Rightarrow> int n < k)"

text \<open>
  The \<open>while\<close> loop of \<open>scheduleNextFileInFolder\<close>, which starts tasks while there is room
  and a file is left.
\<close>

function scheduleNextFileInFolder :: "int option \<Rightarrow> nat \<Rightarrow> folder_state \<Rightarrow> folder_state" where
  "scheduleNextFileInFolder fileConcurrency n st =
     (if below_concurrency (length (activeFileUploads st)) fileConcurrency \<and> currentIndex st < n
      then scheduleNextFileInFolder fileConcurrency n
             (st\<lparr>activeFileUploads := activeFileUploads st @ [currentIndex st],
                 currentIndex := currentIndex st + 1\<rparr>)
      else st)"
  by pat_completeness auto
termination
  by (relation "measure (\<lambda>(fileConcurrency, n, st). n - currentIndex st)") auto

declare scheduleNextFileInFolder.simps [simp del]

text \<open>
  The end of task \<open>i\<close>: the \<open>try\<close> block's outcome is recorded, the task leaves
  \<open>activeFileUploads\<close>, and the \<open>finally\<close> block schedules again.
\<close>

definition finish_task ::
  "sys \<Rightarrow> apiClient \<Rightarrow> config \<Rightarrow> char \<Rightarrow> string \<Rightarrow> string option \<Rightarrow> int option
     \<Rightarrow> fileTask list \<Rightarrow> nat \<Rightarrow> folder_state \<Rightarrow> folder_state" where
  "finish_task sy api cfg sep collection targetSubPath fileConcurrency filesToUpload i st =
     (let ft = filesToUpload ! i;
          r = run_file_task sy api cfg sep collection targetSubPath ft;
          st1 =
            (case snd r of
               Inr res \<Rightarrow>
                 st\<lparr>results := results st @ [\<lparr>task = ft\<lparr>status_t := ''success''\<rparr>, uploaded = Some res\<rparr>],
                    successfulUploads := successfulUploads st + 1,
                    overallUploadedBytesInFolder := overallUploadedBytesInFolder st + size_t ft,
                    trace := trace st @ fst r\<rparr>
             | Inl e \<Rightarrow>
                 st\<lparr>results := results st
                       @ [\<lparr>task = ft\<lparr>status_t := ''failed'', errorMessage := Some e\<rparr>, uploaded = None\<rparr>],
                    failedUploads := failedUploads st + 1,
                    trace := trace st @ fst r\<rparr>)
      in scheduleNextFileInFolder fileConcurrency (length filesToUpload)
           (st1\<lparr>activeFileUploads := remove1 i (activeFileUploads st1)\<rparr>))"

text \<open>
  The tasks in flight end one after the other, in the order \<open>pick\<close> chooses among them; the
  calls of one task are listed together in the trace when it ends.
\<close>

definition next_to_finish :: "(nat list \<Rightarrow> nat) \<Rightarrow> nat list \<Rightarrow> nat" where
  "next_to_finish pick active = (if pick active \<in> set active then pick active else hd active)"

lemma scheduleNextFileInFolder_measure:
  "(n - currentIndex (scheduleNextFileInFolder fc n st))
      + length (activeFileUploads (scheduleNextFileInFolder fc n st))
   = (n - currentIndex st) + length (activeFileUploads st)"
proof (induction fc n st rule: scheduleNextFileInFolder.induct)
  case (1 fc n st)
  show ?case
  proof (cases "below_concurrency (length (activeFileUploads st)) fc \<and> currentIndex st < n")
    case True
    let ?st = "st\<lparr>activeFileUploads := activeFileUploads st @ [currentIndex st],
                  currentIndex := currentIndex st + 1\<rparr>"
    have "scheduleNextFileInFolder fc n st = scheduleNextFileInFolder fc n ?st"
      using True by (subst scheduleNextFileInFolder.simps) simp
    moreover have "(n - currentIndex ?st) + length (activeFileUploads ?st)
                   = (n - currentIndex st) + length (activeFileUploads st)"
    proof -
      have "currentIndex st < n" using True by simp
      then show ?thesis by simp
    qed
    ultimately show ?thesis using "1.IH"[OF True] by simp
  next
    case False
    then have "scheduleNextFileInFolder fc n st = st"
      by (subst scheduleNextFileInFolder.simps) auto
    then show ?thesis by simp
  qed
qed

lemma finish_task_measure:
  assumes "i \<in> set (activeFileUploads st)"
  shows "(length fs - currentIndex (finish_task sy api cfg sep col tsp fc fs i st))
           + length (activeFileUploads (finish_task sy api cfg sep col tsp fc fs i st))
         < (length fs - currentIndex st) + length (activeFileUploads st)"
proof -
  have "length (remove1 i (activeFileUploads st)) < length (activeFileUploads st)"
    using assms length_pos_if_in_set[OF assms] by (simp add: length_remove1)
  then show ?thesis
    unfolding finish_task_def Let_def scheduleNextFileInFolder_measure
    by (auto split: sum.splits)
qed

function drain ::
  "sys \<Rightarrow> apiClient \<Rightarrow> config \<Rightarrow> char \<Rightarrow> string \<Rightarrow> string option \<Rightarrow> int option
     \<Rightarrow> (nat list \<Rightarrow> nat) \<Rightarrow> fileTask list \<Rightarrow> folder_state \<Rightarrow> folder_state" where
  "drain sy api cfg sep collection targetSubPath fileConcurrency pick filesToUpload st =
     (if activeFileUploads st = [] then st
      else drain sy api cfg sep collection targetSubPath fileConcurrency pick filesToUpload
             (finish_task sy api cfg sep collection targetSubPath fileConcurrency filesToUpload
                (next_to_finish pick (activeFileUploads st)) st))"
  by pat_completeness auto
termination
proof (relation "measure (\<lambda>(sy, api, cfg, sep, col, tsp, fc, pick, fs, st).
                   (length fs - currentIndex st) + length (activeFileUploads st))")
  show "wf (measure (\<lambda>(sy, api, cfg, sep, col, tsp, fc, pick, fs, st).
                   (length fs - currentIndex st) + length (activeFileUploads st)))" by simp
next
  fix sy api cfg sep col tsp fc pick fs and st :: folder_state
  assume "activeFileUploads st \<noteq> []"
  then have "next_to_finish pick (activeFileUploads st) \<in> set (activeFileUploads st)"
    by (simp add: next_to_finish_def)
  from finish_task_measure[OF this]
  show "((sy, api, cfg, sep, col, tsp, fc, pick, fs,
          finish_task sy api cfg sep col tsp fc fs (next_to_finish pick (activeFileUploads st)) st),
         (sy, api, cfg, sep, col, tsp, fc, pick, fs, st))
        \<in> measure (\<lambda>(sy, api, cfg, sep, col, tsp, fc, pick, fs, st).
                   (length fs - currentIndex st) + length (activeFileUploads st))"
    by simp
qed

declare drain.simps [simp del]

text \<open>The object \<open>processFolderUpload\<close> returns.\<close>

record folder_summary =
  totalFiles :: int
  successfulUploads_s :: int
  failedUploads_s :: int
  results_s :: "file_result list"

text \<open>
  \<open>processFolderUpload\<close>.  \<open>None\<close> means that the call never settles: the promise that polls
  for \<open>activeFileUploads.size === 0 && currentIndex === filesToUpload.length\<close> is never
  resolved.  Of the arguments \<open>partConcurrency\<close>, \<open>autoApprove\<close> and \<open>options\<close> nothing but log
  lines and progress callbacks depends.
\<close>

definition processFolderUpload ::
  "sys \<Rightarrow> apiClient \<Rightarrow> config \<Rightarrow> char \<Rightarrow> (nat list \<Rightarrow> nat) \<Rightarrow> string \<Rightarrow> string \<Rightarrow> string option
     \<Rightarrow> int option \<Rightarrow> (event list \<times> (err + folder_summary)) option" where
  "processFolderUpload sy api cfg sep pick rootFolderPath collection targetSubPath fileConcurrency =
     (case (case readdir_tree sy rootFolderPath of
              Inl e \<Rightarrow> Inl e
            | Inr items \<Rightarrow>
                scanFolderForUpload sy sep (user_ignored_patterns cfg) rootFolderPath rootFolderPath
                  items) of
        Inl e \<Rightarrow> Some ([], Inl e)
      | Inr (filesToUpload, totalSize) \<Rightarrow>
          if length filesToUpload = 0
          then Some ([], Inr \<lparr>totalFiles = 0, successfulUploads_s = 0, failedUploads_s = 0,
                              results_s = []\<rparr>)
          else
            (let st0 = \<lparr>activeFileUploads = [], currentIndex = 0, results = [],
                        successfulUploads = 0, failedUploads = 0,
                        overallUploadedBytesInFolder = 0, trace = []\<rparr>;
                 st = drain sy api cfg sep collection targetSubPath fileConcurrency pick
                        filesToUpload
                        (scheduleNextFileInFolder fileConcurrency (length filesToUpload) st0)
             in if currentIndex st \<noteq> length filesToUpload then None
                else if failedUploads st > 0
                then Some (trace st, Inl (Files_failed (failedUploads st)))
                else Some (trace st,
                           Inr \<lparr>totalFiles = int (length filesToUpload),
                                successfulUploads_s = successfulUploads st,
                                failedUploads_s = failedUploads st, results_s = results st\<rparr>)))"

section \<open>Entry point\<close>

text \<open>
  \<open>CUEUploader.upload\<close>, once \<open>_initialize\<close> has set \<open>this.config\<close> and \<open>this.apiClient\<close>.  The
  directory branch calls
  \<^verbatim>\<open>doFolderUpload(absoluteSourcePath, collection, targetPath, this.apiClient, this.config,
    this.globalArgs, this.config.file_concurrency, this.config.part_concurrency,
    autoApprove, progressCallbacks)\<close>
  against the parameters \<open>(rootFolderPath, collection, targetSubPath, apiClient, config,
  fileConcurrency, partConcurrency, autoApprove, options)\<close>: the object \<open>this.globalArgs\<close> is
  what \<open>fileConcurrency\<close> receives, and as a number it is \<open>NaN\<close>.  The \<open>catch\<close> logs and rethrows.
\<close>

datatype upload_value = File_result upload_result | Folder_result folder_summary

definition upload ::
  "sys \<Rightarrow> apiClient \<Rightarrow> config \<Rightarrow> char \<Rightarrow> (nat list \<Rightarrow> nat) \<Rightarrow> string \<Rightarrow> string \<Rightarrow> string option
     \<Rightarrow> (event list \<times> (err + upload_value)) option" where
  "upload sy api cfg sep pick sourcePath collection targetPath =
     (let absoluteSourcePath = resolve sy sourcePath
      in case stat sy absoluteSourcePath of
           Inl e \<Rightarrow> Some ([], Inl e)
         | Inr IsDirectory \<Rightarrow>
             map_option (\<lambda>r. (fst r, map_sum id Folder_result (snd r)))
               (processFolderUpload sy api cfg sep pick absoluteSourcePath collection targetPath None)
         | Inr (IsFile fileSize) \<Rightarrow>
             if isFileTypeDisallowed sy absoluteSourcePath
             then Some ([], Inl (File_type_is_disallowed (extname sy absoluteSourcePath)))
             else if fileSize > multipartThresholdBytes cfg
             then (let r = handleMultipartUpload sy api cfg absoluteSourcePath fileSize collection
                             targetPath
                   in Some (fst r, map_sum id File_result (snd (snd r))))
             else (let r = handleSingleFileUpload sy api cfg absoluteSourcePath fileSize collection
                             targetPath
                   in Some (fst r, map_sum id File_result (snd r)))
         | Inr IsOther \<Rightarrow> Some ([], Inl (Not_file_or_directory absoluteSourcePath)))"

section \<open>Notions used in the statements\<close>

text \<open>
  Projections of a trace: the timer delays in milliseconds, the attempt numbers of the
  single-unit authorization requests, and the part and attempt numbers of the part-URL
  requests.
\<close>

fun delays_of :: "event list \<Rightarrow> nat list" where
  "delays_of [] = []"
| "delays_of (Ev_setTimeout d # evs) = d # delays_of evs"
| "delays_of (_ # evs) = delays_of evs"

fun single_requests_of :: "event list \<Rightarrow> nat list" where
  "single_requests_of [] = []"
| "single_requests_of (Ev_getPresignedUrlSingle a # evs) = a # single_requests_of evs"
| "single_requests_of (_ # evs) = single_requests_of evs"

fun part_requests_of :: "event list \<Rightarrow> (int \<times> nat) list" where
  "part_requests_of [] = []"
| "part_requests_of (Ev_getPresignedUrlForPart pn a # evs) = (pn, a) # part_requests_of evs"
| "part_requests_of (_ # evs) = part_requests_of evs"

text \<open>
  \<open>part_kept\<close>: what the retry loop leaves untouched in a part record.  \<open>prepared\<close>: a part
  record after the eager preparation, holding the bytes the file system returns for its
  range.  \<open>settled_ok\<close>: how the record and the settled value of one part upload agree.
\<close>

definition part_kept :: "UploadPartTaskJS_MPU \<Rightarrow> UploadPartTaskJS_MPU \<Rightarrow> bool" where
  "part_kept pt pt' \<longleftrightarrow> data pt' = data pt \<and> partNumber pt' = partNumber pt \<and> size_p pt' = size_p pt
      \<and> offset pt' = offset pt \<and> filePath pt' = filePath pt \<and> checksumSHA256 pt' = checksumSHA256 pt"

definition prepared :: "sys \<Rightarrow> UploadPartTaskJS_MPU \<Rightarrow> bool" where
  "prepared sy pt \<longleftrightarrow> error pt = None \<and> etag pt = None
     \<and> (\<exists>buf. read_at sy (filePath pt) (size_p pt) (offset pt) = Inr buf
            \<and> int (length buf) = size_p pt \<and> data pt = Some buf)"

definition settled_ok :: "UploadPartTaskJS_MPU \<Rightarrow> UploadPartTaskJS_MPU \<Rightarrow> (err + PartInfo option) \<Rightarrow> bool" where
  "settled_ok pt pt' r \<longleftrightarrow> data pt' = data pt \<and> partNumber pt' = partNumber pt \<and> size_p pt' = size_p pt
     \<and> (case r of
           Inr (Some i) \<Rightarrow> etag pt' = Some (ETag i) \<and> ETag i \<noteq> [] \<and> PartNumber i = partNumber pt
         | Inr None \<Rightarrow> etag pt' = None
         | Inl e \<Rightarrow> False)"

text \<open>
  For the scanner: the names that occur in a directory entry, the name paths of the regular
  files below it, and a name path written with forward slashes.
\<close>

fun names_of :: "dirent \<Rightarrow> string list" where
  "names_of (File_ent n) = [n]"
| "names_of (Dir_ent n es) = n # concat (map names_of es)"
| "names_of (Unreadable_ent n e) = [n]"
| "names_of (Other_ent n) = [n]"

fun file_paths :: "dirent \<Rightarrow> string list list" where
  "file_paths (File_ent n) = [[n]]"
| "file_paths (Dir_ent n es) = map ((#) n) (concat (map file_paths es))"
| "file_paths (Unreadable_ent n e) = []"
| "file_paths (Other_ent n) = []"

definition join_slash :: "string list \<Rightarrow> string" where
  "join_slash comps = (case comps of [] \<Rightarrow> [] | c # cs \<Rightarrow> c @ concat (map ((#) (CHR ''/'')) cs))"

text \<open>
  The inputs of the scanner.  \<open>split_on c s\<close> are the pieces of \<open>s\<close> between the occurrences
  of \<open>c\<close>.  A \<open>plain_name\<close> is a name that a directory entry can have on both platforms: not
  empty, not \<open>.\<close> or \<open>..\<close>, and without a forward slash, a backslash or a colon.
  \<open>absolute_normalized sep p\<close>: \<open>p\<close> is an absolute path in normal form below the file-system
  root, as \<open>path.resolve\<close> returns it: on POSIX a \<open>/\<close> and plain names joined by \<open>/\<close>, such
  as \<open>/home/me/up\<close>; on Windows a drive letter, a colon, a backslash and plain names joined
  by backslashes.  It excludes \<open>.\<close>, a relative path, a drive-relative path such as \<open>C:\<close>, a
  path with a trailing or doubled separator, and the file-system roots themselves.
\<close>

fun split_on :: "char \<Rightarrow> string \<Rightarrow> string list" where
  "split_on c [] = [[]]"
| "split_on c (x # xs) =
     (if x = c then [] # split_on c xs
      else (case split_on c xs of [] \<Rightarrow> [[x]] | s # ss \<Rightarrow> (x # s) # ss))"

definition plain_name :: "string \<Rightarrow> bool" where
  "plain_name n \<longleftrightarrow> n \<noteq> [] \<and> n \<noteq> ''.'' \<and> n \<noteq> ''..''
     \<and> CHR ''/'' \<notin> set n \<and> CHR 0x5C \<notin> set n \<and> CHR '':'' \<notin> set n"

definition is_drive_letter :: "char \<Rightarrow> bool" where
  "is_drive_letter c =
     (let n = (of_char c :: nat) in (65 \<le> n \<and> n \<le> 90) \<or> (97 \<le> n \<and> n \<le> 122))"

definition absolute_normalized :: "char \<Rightarrow> string \<Rightarrow> bool" where
  "absolute_normalized sep p =
     (if sep = CHR 0x5C
      then (case p of
              d # c # s # rest \<Rightarrow>
                is_drive_letter d \<and> c = CHR '':'' \<and> s = CHR 0x5C
                \<and> list_all plain_name (split_on (CHR 0x5C) rest)
            | _ \<Rightarrow> False)
      else (case p of
              s # rest \<Rightarrow> s = CHR ''/'' \<and> list_all plain_name (split_on (CHR ''/'') rest)
            | _ \<Rightarrow> False))"

section \<open>Example inputs\<close>

text \<open>
  A configuration with the smallest chunk size (5 MiB), a multipart threshold of 0 bytes
  and one retry.
\<close>

definition cfg_5MiB :: config where
  "cfg_5MiB = \<lparr>multipart_threshold_gb = 0, multipart_chunk_size_mb = 5, retry_attempts = 1,
               user_ignored_patterns = []\<rparr>"

text \<open>
  A file system with the folder \<open>/up\<close>, holding \<open>a.txt\<close> and \<open>sub/b.txt\<close> of three bytes each,
  and collaborators that accept everything.
\<close>

definition sys_ex :: sys where
  "sys_ex = \<lparr>extname = (\<lambda>_. ''.bin''), basename = (\<lambda>_. ''data.bin''),
     getMimeType = (\<lambda>_. ''application/octet-stream''),
     calculateSHA256Checksum = (\<lambda>_. Inr ''q83v''),
     calculateSHA256ChecksumForBytes = (\<lambda>_. ''EjRW''),
     read_at = (\<lambda>fp sz off. Inr (replicate (nat sz) 0)),
     readFile = (\<lambda>_. Inr [1, 2, 3]),
     getFileSize = (\<lambda>_. Inr 3),
     isPathIgnored = (\<lambda>p b pats. False),
     resolve = (\<lambda>p. p),
     stat = (\<lambda>p. if p = ''/up'' then Inr IsDirectory else Inr (IsFile 3)),
     readdir_tree = (\<lambda>p. Inr [File_ent ''a.txt'', Dir_ent ''sub'' [File_ent ''b.txt'']])\<rparr>"

definition api_ok :: apiClient where
  "api_ok = \<lparr>getPresignedUrlSingle =
       (\<lambda>a p. Inr (Obj \<lparr>url = Some ''https://s3/put'', fields_p = None,
                         s3_key_single = Some ''col/data.bin''\<rparr>)),
     confirmSingleUpload = (\<lambda>p. Inr ()),
     startMultipartUpload =
       (\<lambda>p. Inr (Obj \<lparr>upload_id = Some ''u1'', s3_key_start = Some ''col/data.bin''\<rparr>)),
     getPresignedUrlForPart = (\<lambda>a p. Inr (Obj \<lparr>presigned_url = Some ''https://s3/part''\<rparr>)),
     completeMultipartUpload = (\<lambda>p. Inr (Obj \<lparr>Location = Some ''https://s3/col/data.bin''\<rparr>)),
     abortMultipartUpload = (\<lambda>p. Inr ()),
     uploadToS3PresignedPost = (\<lambda>u f fp bn m. Inr \<lparr>status_code = 204, etag_header = Some ''e0''\<rparr>),
     uploadPartToS3PresignedPut =
       (\<lambda>pn a u d. Inr \<lparr>status_code = 200, etag_header = Some (CHR 0x22 # ''e1'' @ [CHR 0x22])\<rparr>)\<rparr>"

text \<open>Storage refuses every PUT, and the abort call fails too.\<close>

definition api_put_fails :: apiClient where
  "api_put_fails =
     api_ok\<lparr>uploadPartToS3PresignedPut := (\<lambda>pn a u d. Inl (Thrown ''boom'')),
            abortMultipartUpload := (\<lambda>p. Inl (Thrown ''abort failed''))\<rparr>"

text \<open>The control plane refuses every single-unit authorization.\<close>

definition api_auth_fails :: apiClient where
  "api_auth_fails = api_ok\<lparr>getPresignedUrlSingle := (\<lambda>a p. Inl (Thrown ''boom''))\<rparr>"

text \<open>A form-style authorization whose POST is answered with status 201.\<close>

definition api_post_201 :: apiClient where
  "api_post_201 =
     api_ok\<lparr>getPresignedUrlSingle :=
              (\<lambda>a p. Inr (Obj \<lparr>url = Some ''https://s3/post'', fields_p = Some [],
                                s3_key_single = Some ''col/data.bin''\<rparr>)),
            uploadToS3PresignedPost :=
              (\<lambda>u f fp bn m. Inr \<lparr>status_code = 201, etag_header = Some ''e0''\<rparr>)\<rparr>"

text \<open>
  A single-unit authorization that carries a \<open>url\<close> and no \<open>s3_key\<close>, and a start response
  that carries an \<open>upload_id\<close> and no \<open>s3_key\<close>.
\<close>

definition api_no_key :: apiClient where
  "api_no_key =
     api_ok\<lparr>getPresignedUrlSingle :=
              (\<lambda>a p. Inr (Obj \<lparr>url = Some ''https://s3/put'', fields_p = None,
                                s3_key_single = None\<rparr>))\<rparr>"

definition api_start_no_key :: apiClient where
  "api_start_no_key =
     api_ok\<lparr>startMultipartUpload :=
              (\<lambda>p. Inr (Obj \<lparr>upload_id = Some ''u1'', s3_key_start = None\<rparr>))\<rparr>"

text \<open>The completion call fails, and the abort call fails too.\<close>

definition api_complete_fails :: apiClient where
  "api_complete_fails =
     api_ok\<lparr>completeMultipartUpload := (\<lambda>p. Inl (Thrown ''complete failed'')),
            abortMultipartUpload := (\<lambda>p. Inl (Thrown ''abort failed''))\<rparr>"

text \<open>A prepared part record of three bytes and the session it belongs to.\<close>

definition part_ex :: UploadPartTaskJS_MPU where
  "part_ex = (new_UploadPartTaskJS_MPU 1 0 3 ''data.bin'')
               \<lparr>data := Some [0, 0, 0], checksumSHA256 := Some ''EjRW''\<rparr>"

definition ctx_ex :: part_ctx where
  "ctx_ex = \<lparr>s3UploadId = Some ''u1'', backendS3Key = Some ''col/data.bin'', collection_c = ''col'',
             originalFileMimeType = ''application/octet-stream''\<rparr>"

text \<open>The entries of the folder \<open>/up\<close>, and a scanned file of exactly 1 GiB.\<close>

definition tree_ex :: "dirent list" where
  "tree_ex = [File_ent ''a.txt'', Dir_ent ''sub'' [File_ent ''b.txt'']]"

definition task_1GiB :: fileTask where
  "task_1GiB = \<lparr>localPath = ''/up/a.txt'', relativePath = ''a.txt'', size_t = 1073741824,
                 status_t = ''pending'', errorMessage = None\<rparr>"

text \<open>The file \<open>/up/a.txt\<close> cannot be hashed.\<close>

definition sys_a_unreadable :: sys where
  "sys_a_unreadable =
     sys_ex\<lparr>calculateSHA256Checksum :=
              (\<lambda>fp. if fp = ''/up/a.txt'' then Inl (Thrown ''EIO'') else Inr ''q83v'')\<rparr>"

section \<open>Properties of the partitioning\<close>

lemma math_ceil_div_bounds:
  assumes "0 < b"
  shows "(math_ceil_div a b - 1) * b < a" and "a \<le> math_ceil_div a b * b"
proof -
  let ?q = "(- a) div b" let ?r = "(- a) mod b"
  have e: "- a = ?q * b + ?r" by simp
  have r: "0 \<le> ?r" "?r < b" using assms by simp_all
  have "a = - ?q * b - ?r" using e by linarith
  then have a: "a = math_ceil_div a b * b - ?r" by (simp add: math_ceil_div_def)
  show "a \<le> math_ceil_div a b * b" using a r by linarith
  have "(math_ceil_div a b - 1) * b = math_ceil_div a b * b - b" by (simp add: algebra_simps)
  then show "(math_ceil_div a b - 1) * b < a" using a r by linarith
qed

lemma math_ceil_div_ceiling:
  assumes "0 < b"
  shows "math_ceil_div a b = \<lceil>real_of_int a / real_of_int b\<rceil>"
  using assms by (simp add: ceiling_divide_eq_div math_ceil_div_def)

lemma build_partTasks_map:
  assumes "0 < cs" and "(n - 1) * cs < S" and "0 \<le> i"
  shows "build_partTasks fp cs S n i =
         map (\<lambda>j. new_UploadPartTaskJS_MPU (j + 1) (j * cs) (min cs (S - j * cs)) fp) [i..n - 1]"
  using assms
proof (induction fp cs S n i rule: build_partTasks.induct)
  case (1 fp cs S n i)
  show ?case
  proof (cases "i < n")
    case True
    then have "i * cs \<le> (n - 1) * cs" using "1.prems" by (simp add: mult_right_mono)
    then have "i * cs < S" using "1.prems" by linarith
    then have pos: "\<not> min cs (S - i * cs) \<le> 0" using "1.prems" by (simp add: min_def)
    have up: "[i..n - 1] = i # [i + 1..n - 1]" using True by (simp add: upto_rec1)
    have ih: "build_partTasks fp cs S n (i + 1) =
         map (\<lambda>j. new_UploadPartTaskJS_MPU (j + 1) (j * cs) (min cs (S - j * cs)) fp) [i + 1..n - 1]"
      using "1.IH"(2)[OF True refl pos] "1.prems" by simp
    show ?thesis
      by (subst build_partTasks.simps) (use True pos ih up in \<open>simp add: Let_def\<close>)
  next
    case False
    then show ?thesis by (subst build_partTasks.simps) simp
  qed
qed

lemma sum_sizes:
  assumes "0 < cs" and "(n - 1) * cs < S" and "S \<le> n * cs" and "0 \<le> i" and "i \<le> n"
  shows "sum_list (map (\<lambda>j. min cs (S - j * cs)) [i..n - 1]) = (if i = n then 0 else S - i * cs)"
  using assms
proof (induction "nat (n - i)" arbitrary: i)
  case 0
  then have "i = n" by simp
  then show ?case by simp
next
  case (Suc k)
  then have lt: "i < n" by linarith
  have up: "[i..n - 1] = i # [i + 1..n - 1]" using lt by (simp add: upto_rec1)
  have ih: "sum_list (map (\<lambda>j. min cs (S - j * cs)) [i + 1..n - 1]) = (if i + 1 = n then 0 else S - (i + 1) * cs)"
    using Suc(1)[of "i + 1"] Suc(2) Suc.prems lt by simp
  show ?case
  proof (cases "i + 1 = n")
    case True
    then have "n * cs = i * cs + cs" by (auto simp: algebra_simps)
    then have "S - i * cs \<le> cs" using Suc.prems by linarith
    then show ?thesis using up ih True lt by simp
  next
    case False
    then have "(i + 1) * cs \<le> (n - 1) * cs" using lt Suc.prems by (simp add: mult_right_mono)
    then have "cs \<le> S - i * cs" using Suc.prems by (simp add: algebra_simps)
    then show ?thesis using up ih False lt by (simp add: algebra_simps)
  qed
qed


lemma chunkSize_of_pos: "0 < chunkSize_of cfg"
  by (simp add: chunkSize_of_def Let_def)

lemma numParts_of_bounds:
  "(numParts_of cfg S - 1) * chunkSize_of cfg < S" "S \<le> numParts_of cfg S * chunkSize_of cfg"
  unfolding numParts_of_def using math_ceil_div_bounds[OF chunkSize_of_pos] by blast+

lemma numParts_of_nonneg:
  assumes "0 \<le> S" shows "0 \<le> numParts_of cfg S"
proof (rule ccontr)
  assume "\<not> 0 \<le> numParts_of cfg S"
  then have "numParts_of cfg S \<le> - 1" by simp
  then have "numParts_of cfg S * chunkSize_of cfg \<le> - 1 * chunkSize_of cfg"
    using chunkSize_of_pos[of cfg] by (intro mult_right_mono) simp_all
  then show False using numParts_of_bounds(2)[where S=S and cfg=cfg] chunkSize_of_pos[of cfg] assms by linarith
qed

lemma partTasks_of_map:
  "partTasks_of cfg fp S =
     map (\<lambda>j. new_UploadPartTaskJS_MPU (j + 1) (j * chunkSize_of cfg)
                 (min (chunkSize_of cfg) (S - j * chunkSize_of cfg)) fp) [0..numParts_of cfg S - 1]"
proof (cases "numParts_of cfg S > 0")
  case True
  then show ?thesis
    unfolding partTasks_of_def Let_def
    using build_partTasks_map[OF chunkSize_of_pos numParts_of_bounds(1), where i=0 and fp=fp] by simp
next
  case False
  then show ?thesis by (simp add: partTasks_of_def Let_def)
qed

lemma length_partTasks_of: "0 \<le> S \<Longrightarrow> int (length (partTasks_of cfg fp S)) = numParts_of cfg S"
  using numParts_of_nonneg[of S cfg] by (simp add: partTasks_of_map)

lemma nth_partTasks_of:
  assumes "k < length (partTasks_of cfg fp S)"
  shows "partTasks_of cfg fp S ! k =
     new_UploadPartTaskJS_MPU (int k + 1) (int k * chunkSize_of cfg)
        (min (chunkSize_of cfg) (S - int k * chunkSize_of cfg)) fp"
proof -
  have "k < length [0..numParts_of cfg S - 1]" using assms by (simp add: partTasks_of_map)
  then have "[0..numParts_of cfg S - 1] ! k = int k" by (simp add: nth_upto)
  then show ?thesis using assms by (simp add: partTasks_of_map)
qed

lemma size_p_nth_partTasks_of:
  assumes "0 \<le> S" "Suc k < length (partTasks_of cfg fp S)"
  shows "size_p (partTasks_of cfg fp S ! k) = chunkSize_of cfg"
proof -
  have "int k + 1 \<le> numParts_of cfg S - 1" using assms length_partTasks_of[OF assms(1), of cfg fp] by linarith
  then have "(int k + 1) * chunkSize_of cfg \<le> (numParts_of cfg S - 1) * chunkSize_of cfg"
    using chunkSize_of_pos[of cfg] by (intro mult_right_mono) simp_all
  then have "chunkSize_of cfg \<le> S - int k * chunkSize_of cfg"
    using numParts_of_bounds(1)[where S=S and cfg=cfg] by (simp add: algebra_simps)
  then show ?thesis using assms by (simp add: nth_partTasks_of new_UploadPartTaskJS_MPU_def)
qed

lemma sum_size_p_partTasks_of:
  assumes "0 \<le> S"
  shows "sum_list (map size_p (partTasks_of cfg fp S)) = S"
proof -
  have "sum_list (map size_p (partTasks_of cfg fp S)) =
        sum_list (map (\<lambda>j. min (chunkSize_of cfg) (S - j * chunkSize_of cfg)) [0..numParts_of cfg S - 1])"
    by (simp add: partTasks_of_map new_UploadPartTaskJS_MPU_def comp_def)
  also have "\<dots> = (if 0 = numParts_of cfg S then 0 else S - 0 * chunkSize_of cfg)"
    by (rule sum_sizes[OF chunkSize_of_pos numParts_of_bounds]) (use numParts_of_nonneg[OF assms] in simp_all)
  also have "\<dots> = S" using numParts_of_bounds[where S=S and cfg=cfg] assms by auto
  finally show ?thesis .
qed

text \<open>
  Claim C1.  For a file of size \<open>S \<ge> 0\<close> and a configured chunk size of \<open>C\<close> MB, the
  effective chunk size is \<open>max (C * 1 MiB) (5 MiB)\<close>; the number of part tasks is
  \<open>\<lceil>S / chunkSize\<rceil>\<close>; the part numbers are \<open>1, 2, \<dots>\<close> without gaps; the first part
  starts at offset 0 and every other part starts where its predecessor ends; the part
  lengths add up to \<open>S\<close>; and the last part has length \<open>S - (partCount - 1) * chunkSize\<close>.
\<close>

theorem C1_multipart_partition:
  assumes "0 \<le> S"
  shows "chunkSize_of cfg = max (multipart_chunk_size_mb cfg * (1024 * 1024)) (5 * (1024 * 1024))
     \<and> int (length (partTasks_of cfg fp S)) = \<lceil>real_of_int S / real_of_int (chunkSize_of cfg)\<rceil>
     \<and> map partNumber (partTasks_of cfg fp S) = [1..int (length (partTasks_of cfg fp S))]
     \<and> (\<forall>k < length (partTasks_of cfg fp S).
           offset (partTasks_of cfg fp S ! k) =
             (if k = 0 then 0
              else offset (partTasks_of cfg fp S ! (k - 1)) + size_p (partTasks_of cfg fp S ! (k - 1))))
     \<and> sum_list (map size_p (partTasks_of cfg fp S)) = S
     \<and> (partTasks_of cfg fp S \<noteq> [] \<longrightarrow>
           size_p (last (partTasks_of cfg fp S)) =
             S - (int (length (partTasks_of cfg fp S)) - 1) * chunkSize_of cfg)"
proof (intro conjI allI impI)
  let ?ps = "partTasks_of cfg fp S" and ?cs = "chunkSize_of cfg"
  show "?cs = max (multipart_chunk_size_mb cfg * (1024 * 1024)) (5 * (1024 * 1024))"
    by (simp add: chunkSize_of_def Let_def max_def)
  show "int (length ?ps) = \<lceil>real_of_int S / real_of_int ?cs\<rceil>"
    using length_partTasks_of[OF assms, of cfg fp] math_ceil_div_ceiling[OF chunkSize_of_pos, of S cfg]
    by (simp add: numParts_of_def)
  show "map partNumber ?ps = [1..int (length ?ps)]"
  proof (rule nth_equalityI)
    show "length (map partNumber ?ps) = length [1..int (length ?ps)]" by simp
  next
    fix k assume "k < length (map partNumber ?ps)"
    then have k: "k < length ?ps" by simp
    then show "map partNumber ?ps ! k = [1..int (length ?ps)] ! k"
      by (simp add: nth_partTasks_of new_UploadPartTaskJS_MPU_def nth_upto)
  qed
  show "sum_list (map size_p ?ps) = S" by (rule sum_size_p_partTasks_of[OF assms])
next
  let ?ps = "partTasks_of cfg fp S" and ?cs = "chunkSize_of cfg"
  fix k assume k: "k < length ?ps"
  show "offset (?ps ! k) = (if k = 0 then 0 else offset (?ps ! (k - 1)) + size_p (?ps ! (k - 1)))"
  proof (cases k)
    case 0
    then show ?thesis using k by (simp add: nth_partTasks_of new_UploadPartTaskJS_MPU_def)
  next
    case (Suc m)
    then have "size_p (?ps ! m) = ?cs" using size_p_nth_partTasks_of[OF assms, of m cfg fp] k by simp
    moreover have "offset (?ps ! m) = int m * ?cs"
      using k Suc by (simp add: nth_partTasks_of new_UploadPartTaskJS_MPU_def)
    moreover have "offset (?ps ! k) = int k * ?cs"
      using k by (simp add: nth_partTasks_of new_UploadPartTaskJS_MPU_def)
    ultimately show ?thesis using Suc by (simp add: algebra_simps)
  qed
next
  let ?ps = "partTasks_of cfg fp S" and ?cs = "chunkSize_of cfg"
  assume ne: "?ps \<noteq> []"
  then obtain m where m: "length ?ps = Suc m" by (cases ?ps) auto
  have n: "numParts_of cfg S = int m + 1"
    using length_partTasks_of[OF assms, of cfg fp] m by simp
  have "S \<le> (int m + 1) * ?cs"
    using numParts_of_bounds(2)[where S=S and cfg=cfg] n by simp
  then have le: "S - int m * ?cs \<le> ?cs" by (simp add: algebra_simps)
  have "last ?ps = ?ps ! m" using ne m by (simp add: last_conv_nth)
  also have "size_p \<dots> = min ?cs (S - int m * ?cs)"
    using m by (simp add: nth_partTasks_of new_UploadPartTaskJS_MPU_def)
  finally show "size_p (last ?ps) = S - (int (length ?ps) - 1) * ?cs"
    using le m by simp
qed


theorem C1_multipart_partition_witness:
  "(0::int) \<le> 12582912
   \<and> map (\<lambda>p. (partNumber p, offset p, size_p p)) (partTasks_of cfg_5MiB ''big.bin'' 12582912)
       = [(1, 0, 5242880), (2, 5242880, 5242880), (3, 10485760, 2097152)]
   \<and> partTasks_of cfg_5MiB ''big.bin'' 12582912 \<noteq> []
   \<and> size_p (last (partTasks_of cfg_5MiB ''big.bin'' 12582912)) = 12582912 - (3 - 1) * 5242880
   \<and> sum_list (map size_p (partTasks_of cfg_5MiB ''big.bin'' 12582912)) = 12582912"
proof -
  have h: "(0::int) \<le> 12582912" by simp
  have e: "map (\<lambda>p. (partNumber p, offset p, size_p p)) (partTasks_of cfg_5MiB ''big.bin'' 12582912)
       = [(1, 0, 5242880), (2, 5242880, 5242880), (3, 10485760, 2097152)]"
    by code_simp
  have c: "chunkSize_of cfg_5MiB = 5242880" by (simp add: chunkSize_of_def cfg_5MiB_def)
  have l: "length (partTasks_of cfg_5MiB ''big.bin'' 12582912) = 3"
    using arg_cong[OF e, of length] by simp
  from C1_multipart_partition[OF h, of cfg_5MiB "''big.bin''"] e c l show ?thesis by auto
qed

section \<open>Properties of the single-unit authorization loop\<close>

lemma presign_attempts_Obj:
  "snd (presign_attempts api n p k) = Inr (Obj info) \<Longrightarrow>
     \<exists>a. getPresignedUrlSingle api a p = Inr (Obj info)"
proof (induction api n p k rule: presign_attempts.induct)
  case (1 api n p k)
  show ?case
  proof (cases "k \<le> n")
    case False
    with "1.prems" show ?thesis by (subst (asm) presign_attempts.simps) simp
  next
    case True
    show ?thesis
    proof (cases "presign_attempt api p k")
      case (Inr b)
      with True "1.prems" have "b = Obj info" by (subst (asm) presign_attempts.simps) simp
      with Inr show ?thesis
        by (auto simp: presign_attempt_def split: sum.splits body.splits)
    next
      case (Inl e)
      show ?thesis
      proof (cases "k \<ge> n")
        case True
        with \<open>k \<le> n\<close> Inl "1.prems" show ?thesis by (subst (asm) presign_attempts.simps) simp
      next
        case False
        with \<open>k \<le> n\<close> Inl "1.prems" have "snd (presign_attempts api n p (k + 1)) = Inr (Obj info)"
          by (subst (asm) presign_attempts.simps) (simp add: Let_def)
        with "1.IH"[OF \<open>k \<le> n\<close> Inl False] show ?thesis by simp
      qed
    qed
  qed
qed

lemma presign_attempts_all_fail:
  assumes "\<forall>a\<le>n. presign_attempt api p a = Inl (e a)" and "k \<le> n"
  shows "presign_attempts api n p k =
     (concat (map (\<lambda>a. Ev_getPresignedUrlSingle a # (if a < n then [Ev_setTimeout (2 ^ a * 1000)] else []))
                [k..<Suc n]),
      Inl (Failed_presigned_after (int n + 1) (e n)))"
  using assms
proof (induction "n - k" arbitrary: k)
  case 0
  then have "k = n" by simp
  then show ?case using 0 by (subst presign_attempts.simps) simp
next
  case (Suc d)
  then have lt: "k < n" by simp
  have up: "[k..<Suc n] = k # [Suc k..<Suc n]" using lt by (simp add: upt_conv_Cons)
  have ih: "presign_attempts api n p (Suc k) =
     (concat (map (\<lambda>a. Ev_getPresignedUrlSingle a # (if a < n then [Ev_setTimeout (2 ^ a * 1000)] else []))
                [Suc k..<Suc n]),
      Inl (Failed_presigned_after (int n + 1) (e n)))"
    using Suc(1)[of "Suc k"] Suc(2-) lt by simp
  have f: "presign_attempt api p k = Inl (e k)" using Suc.prems by simp
  show ?case
    by (subst presign_attempts.simps) (use lt f ih in \<open>simp add: Let_def up del: upt_Suc\<close>)
qed

lemma single_result:
  assumes "snd (handleSingleFileUpload sy api cfg fp sz col tsp) = Inr r"
  shows "status r = ''success'' \<and> (\<exists>a p info. getPresignedUrlSingle api a p = Inr (Obj info) \<and> s3_key r = s3_key_single info)"
proof -
  from assms obtain c info where
    a: "snd (presign_attempts api (retry_attempts cfg) (initiatePayload_of sy fp sz col tsp c) 0) = Inr (Obj info)"
    and t: "snd (single_transfer sy api fp sz col tsp c (getMimeType sy fp) info) = Inr r"
    by (auto simp: handleSingleFileUpload_def Let_def split: if_splits sum.splits body.splits)
  from t have "status r = ''success'' \<and> s3_key r = s3_key_single info"
    by (auto simp: single_transfer_def Let_def split: option.splits sum.splits if_splits)
  with presign_attempts_Obj[OF a] show ?thesis by blast
qed

section \<open>Properties of the part uploads\<close>

lemma part_attempt_retries [simp]:
  "part_attempt api ctx (pt\<lparr>retries := a\<rparr>) b = part_attempt api ctx pt b"
  by (simp add: part_attempt_def Let_def split: sum.splits body.splits)

lemma part_attempt_Inr: "snd (part_attempt api ctx pt a) = Inr t \<Longrightarrow> t \<noteq> []"
  by (auto simp: part_attempt_def Let_def split: sum.splits body.splits option.splits if_splits)

lemma part_attempt_events:
  "ev \<in> set (fst (part_attempt api ctx pt a)) \<Longrightarrow>
     ev = Ev_getPresignedUrlForPart (partNumber pt) a \<or> ev = Ev_uploadPartToS3PresignedPut (partNumber pt) a"
  by (auto simp: part_attempt_def Let_def split: sum.splits body.splits option.splits if_splits)

lemma part_attempts_inv:
  "part_attempts api n ctx pt k = (evs, pt', v) \<Longrightarrow>
     part_kept pt pt'
     \<and> (case v of Some i \<Rightarrow> etag pt' = Some (ETag i) \<and> ETag i \<noteq> [] \<and> PartNumber i = partNumber pt
                 | None \<Rightarrow> etag pt' = etag pt)
     \<and> Ev_abortMultipartUpload \<notin> set evs \<and> (\<forall>ps. Ev_completeMultipartUpload ps \<notin> set evs)"
proof (induction api n ctx pt k arbitrary: evs pt' v rule: part_attempts.induct)
  case (1 api n ctx pt k)
  show ?case
  proof (cases "k \<le> n")
    case False
    with "1.prems" show ?thesis by (subst (asm) part_attempts.simps) (auto simp: part_kept_def)
  next
    case True
    let ?pt = "pt\<lparr>retries := k\<rparr>"
    let ?r = "part_attempt api ctx ?pt k"
    have ev: "Ev_abortMultipartUpload \<notin> set (fst ?r) \<and> (\<forall>ps. Ev_completeMultipartUpload ps \<notin> set (fst ?r))"
      using part_attempt_events[of _ api ctx ?pt k] by auto
    show ?thesis
    proof (cases "snd ?r")
      case (Inr t)
      with True "1.prems" part_attempt_Inr[OF Inr] ev show ?thesis
        by (subst (asm) part_attempts.simps) (auto simp: Let_def part_kept_def)
    next
      case (Inl e)
      show ?thesis
      proof (cases "k \<ge> n")
        case True
        with \<open>k \<le> n\<close> Inl "1.prems" ev show ?thesis
          by (subst (asm) part_attempts.simps) (auto simp: Let_def part_kept_def)
      next
        case False
        obtain evs1 pt1 v1 where rest: "part_attempts api n ctx ?pt (k + 1) = (evs1, pt1, v1)"
          by (cases "part_attempts api n ctx ?pt (k + 1)") auto
        from "1.IH"[OF \<open>k \<le> n\<close> refl refl Inl False rest]
        have ih: "part_kept ?pt pt1"
          "(case v1 of Some i \<Rightarrow> etag pt1 = Some (ETag i) \<and> ETag i \<noteq> [] \<and> PartNumber i = partNumber ?pt
                 | None \<Rightarrow> etag pt1 = etag ?pt)"
          "Ev_abortMultipartUpload \<notin> set evs1 \<and> (\<forall>ps. Ev_completeMultipartUpload ps \<notin> set evs1)"
          by auto
        from \<open>k \<le> n\<close> Inl False rest "1.prems"
        have "part_attempts api n ctx pt k = (fst ?r @ Ev_setTimeout (2 ^ k * 1000) # evs1, pt1, v1)"
          by (subst part_attempts.simps) (simp add: Let_def)
        with "1.prems"
        have eq: "evs = fst ?r @ Ev_setTimeout (2 ^ k * 1000) # evs1" "pt' = pt1" "v = v1"
          by simp_all
        show ?thesis using ih ev unfolding eq by (auto simp: part_kept_def split: option.splits)
      qed
    qed
  qed
qed


lemma readAndChecksum_Inr:
  assumes "readAndChecksum sy pt = (pt', Inr u)" and "etag pt = None" and "error pt = None"
  shows "prepared sy pt' \<and> partNumber pt' = partNumber pt \<and> size_p pt' = size_p pt"
  using assms
  by (auto simp: readAndChecksum_def prepared_def Let_def split: sum.splits if_splits)

lemma readAndChecksum_data:
  "data pt \<noteq> None \<Longrightarrow> data (fst (readAndChecksum sy pt)) \<noteq> None"
  by (auto simp: readAndChecksum_def Let_def split: sum.splits if_splits)

lemma readAndChecksum_prepared:
  assumes "prepared sy pt"
  shows "snd (readAndChecksum sy pt) = Inr () \<and> error (fst (readAndChecksum sy pt)) = None
     \<and> etag (fst (readAndChecksum sy pt)) = None \<and> data (fst (readAndChecksum sy pt)) = data pt
     \<and> partNumber (fst (readAndChecksum sy pt)) = partNumber pt
     \<and> size_p (fst (readAndChecksum sy pt)) = size_p pt"
  using assms
  by (auto simp: readAndChecksum_def prepared_def Let_def split: sum.splits if_splits)

lemma prepare_parts_prepared:
  assumes "prepare_parts sy pts = Inr pts'" and "\<forall>pt\<in>set pts. etag pt = None \<and> error pt = None"
  shows "(\<forall>pt\<in>set pts'. prepared sy pt) \<and> map partNumber pts' = map partNumber pts
          \<and> map size_p pts' = map size_p pts"
  using assms
proof (induction pts arbitrary: pts')
  case Nil
  then show ?case by simp
next
  case (Cons pt pts)
  obtain pt1 r where rd: "readAndChecksum sy pt = (pt1, r)" by (cases "readAndChecksum sy pt") auto
  from Cons.prems(1) rd obtain u rest where
    r: "r = Inr u" and rest: "prepare_parts sy pts = Inr rest" and eq: "pts' = pt1 # rest"
    by (auto split: sum.splits option.splits)
  from readAndChecksum_Inr[OF rd[unfolded r]] Cons.prems(2)
  have p1: "prepared sy pt1 \<and> partNumber pt1 = partNumber pt \<and> size_p pt1 = size_p pt" by simp
  from Cons.IH[OF rest] Cons.prems(2) p1 show ?case unfolding eq by simp
qed

lemma partTasks_of_fresh:
  "pt \<in> set (partTasks_of cfg fp S) \<Longrightarrow> etag pt = None \<and> error pt = None"
  by (auto simp: partTasks_of_map new_UploadPartTaskJS_MPU_def)

lemma uploadSinglePart_prepared:
  assumes "prepared sy pt" and "uploadSinglePartWithRetryJS_MPU sy api cfg ctx pt = (evs, pt', r)"
  shows "settled_ok pt pt' r \<and> Ev_abortMultipartUpload \<notin> set evs
          \<and> (\<forall>ps. Ev_completeMultipartUpload ps \<notin> set evs)"
proof -
  let ?rd = "if data pt = None \<or> falsy (checksumSHA256 pt) then readAndChecksum sy pt else (pt, Inr ())"
  have c: "snd ?rd = Inr ()" "error (fst ?rd) = None" "etag (fst ?rd) = None" "data (fst ?rd) = data pt"
    "partNumber (fst ?rd) = partNumber pt" "size_p (fst ?rd) = size_p pt"
    using readAndChecksum_prepared[OF assms(1)] assms(1) by (simp_all add: prepared_def)
  obtain evs1 pt1 v1 where pa: "part_attempts api (retry_attempts cfg) ctx (fst ?rd) 0 = (evs1, pt1, v1)"
    by (cases "part_attempts api (retry_attempts cfg) ctx (fst ?rd) 0") auto
  have "uploadSinglePartWithRetryJS_MPU sy api cfg ctx pt = (evs1, pt1, Inr v1)"
    unfolding uploadSinglePartWithRetryJS_MPU_def Let_def using c(1,2) pa by simp
  with assms(2) have eq: "evs = evs1" "pt' = pt1" "r = Inr v1" by simp_all
  from part_attempts_inv[OF pa] c show ?thesis
    unfolding eq by (auto simp: settled_ok_def part_kept_def split: option.splits)
qed

lemma uploadSinglePart_data:
  assumes "data pt \<noteq> None"
  shows "data (fst (snd (uploadSinglePartWithRetryJS_MPU sy api cfg ctx pt))) \<noteq> None"
proof -
  let ?rd = "if data pt = None \<or> falsy (checksumSHA256 pt) then readAndChecksum sy pt else (pt, Inr ())"
  have d: "data (fst ?rd) \<noteq> None" using assms readAndChecksum_data[OF assms, of sy] by simp
  obtain evs1 pt1 v1 where pa: "part_attempts api (retry_attempts cfg) ctx (fst ?rd) 0 = (evs1, pt1, v1)"
    by (cases "part_attempts api (retry_attempts cfg) ctx (fst ?rd) 0") auto
  from part_attempts_inv[OF pa] have "data pt1 = data (fst ?rd)" by (simp add: part_kept_def)
  with d pa show ?thesis
    unfolding uploadSinglePartWithRetryJS_MPU_def Let_def
    by (auto split: sum.splits option.splits)
qed

lemma upload_parts_prepared:
  assumes "\<forall>pt\<in>set pts. prepared sy pt" and "upload_parts sy api cfg ctx pts = (evs, pts', rs)"
  shows "list_all2 (\<lambda>pt (pt', r). settled_ok pt pt' r) pts (zip pts' rs) \<and> length pts' = length pts
          \<and> length rs = length pts
          \<and> Ev_abortMultipartUpload \<notin> set evs \<and> (\<forall>ps. Ev_completeMultipartUpload ps \<notin> set evs)"
  using assms
proof (induction pts arbitrary: evs pts' rs)
  case Nil
  then show ?case by simp
next
  case (Cons pt pts)
  obtain e1 p1 r1 where u: "uploadSinglePartWithRetryJS_MPU sy api cfg ctx pt = (e1, p1, r1)"
    by (cases "uploadSinglePartWithRetryJS_MPU sy api cfg ctx pt") auto
  obtain e2 p2 r2 where v: "upload_parts sy api cfg ctx pts = (e2, p2, r2)"
    by (cases "upload_parts sy api cfg ctx pts") auto
  from Cons.prems(2) u v have eq: "evs = e1 @ e2" "pts' = p1 # p2" "rs = r1 # r2"
    by (simp_all add: Let_def)
  from uploadSinglePart_prepared[OF _ u] Cons.prems(1)
  have a: "settled_ok pt p1 r1 \<and> Ev_abortMultipartUpload \<notin> set e1
          \<and> (\<forall>ps. Ev_completeMultipartUpload ps \<notin> set e1)" by simp
  from Cons.IH[OF _ v] Cons.prems(1) a show ?case unfolding eq by simp
qed

lemma fulfilled_count:
  assumes "list_all2 (\<lambda>pt (pt', r). settled_ok pt pt' r) pts (zip pts' rs)"
    and "length pts' = length pts" and "length rs = length pts"
  shows "length (fulfilled_values rs) = length (filter (\<lambda>pt. \<not> falsy (etag pt)) pts')
      \<and> map PartNumber (fulfilled_values rs) = map partNumber (filter (\<lambda>pt. \<not> falsy (etag pt)) pts')
      \<and> (\<forall>i\<in>set (fulfilled_values rs). ETag i \<noteq> [])"
  using assms
proof (induction pts arbitrary: pts' rs)
  case Nil
  then show ?case by simp
next
  case (Cons pt pts)
  then obtain p1 p2 r1 r2 where eq: "pts' = p1 # p2" "rs = r1 # r2"
    by (cases pts'; cases rs) auto
  from Cons.prems have s: "settled_ok pt p1 r1" and
    r: "list_all2 (\<lambda>pt (pt', r). settled_ok pt pt' r) pts (zip p2 r2)" "length p2 = length pts" "length r2 = length pts"
    unfolding eq by simp_all
  from Cons.IH[OF r] have ih: "length (fulfilled_values r2) = length (filter (\<lambda>pt. \<not> falsy (etag pt)) p2)"
    "map PartNumber (fulfilled_values r2) = map partNumber (filter (\<lambda>pt. \<not> falsy (etag pt)) p2)"
    "\<forall>i\<in>set (fulfilled_values r2). ETag i \<noteq> []" by simp_all
  show ?case
  proof (cases r1)
    case (Inl e)
    with s show ?thesis by (simp add: settled_ok_def)
  next
    case (Inr v)
    show ?thesis
    proof (cases v)
      case None
      with Inr s ih show ?thesis unfolding eq by (simp add: settled_ok_def falsy_def)
    next
      case (Some i)
      with Inr s ih show ?thesis unfolding eq by (simp add: settled_ok_def falsy_def)
    qed
  qed
qed

lemma all_etags_iff:
  "length (filter (\<lambda>pt. \<not> falsy (etag pt)) pts) = length pts \<longleftrightarrow> (\<forall>pt\<in>set pts. \<not> falsy (etag pt))"
  using length_filter_less[of _ pts "\<lambda>pt. \<not> falsy (etag pt)"]
  by (metis (mono_tags, lifting) filter_True less_irrefl)


lemma mpu_finish_cases:
  "(length tasks > 0 \<and> length infos \<noteq> length tasks \<and>
      mpu_finish api ctx bn tsp sz ck tasks infos =
        ([Ev_abortMultipartUpload],
         Inl (Parts_failed (map partNumber (filter (\<lambda>pt. falsy (etag pt)) tasks)))))
   \<or> (\<not> (length tasks > 0 \<and> length infos \<noteq> length tasks) \<and>
       (\<exists>loc. mpu_finish api ctx bn tsp sz ck tasks infos =
          ([Ev_completeMultipartUpload (sort_key PartNumber infos)],
           Inr \<lparr>file_r = bn, status = ''success'', s3_key = backendS3Key ctx, location = loc\<rparr>)))
   \<or> (\<not> (length tasks > 0 \<and> length infos \<noteq> length tasks) \<and>
       (\<exists>e p. (completeMultipartUpload api p = Inl e
                 \<or> completeMultipartUpload api p = Inr Nullish \<and> e = Type_error) \<and>
          mpu_finish api ctx bn tsp sz ck tasks infos =
          ([Ev_completeMultipartUpload (sort_key PartNumber infos), Ev_abortMultipartUpload],
           Inl (Failed_to_complete_MPU e))))"
  unfolding mpu_finish_def Let_def
  by (auto split: sum.splits body.splits)


lemma start_session_key:
  "start_session api p = Inr (u, k) \<Longrightarrow> \<not> falsy k \<and> \<not> falsy u"
  by (auto simp: start_session_def Let_def split: sum.splits body.splits if_splits)

lemma handleMultipartUpload_cases:
  "(\<exists>evs e. handleMultipartUpload sy api cfg fp sz col tsp = (evs, [], Inl e)
       \<and> Ev_abortMultipartUpload \<notin> set evs \<and> (\<forall>ps. Ev_completeMultipartUpload ps \<notin> set evs))
   \<or> (\<exists>ctx ck pts. prepare_parts sy (partTasks_of cfg fp sz) = Inr pts \<and> \<not> falsy (backendS3Key ctx)
       \<and> handleMultipartUpload sy api cfg fp sz col tsp =
          (Ev_startMultipartUpload # fst (upload_parts sy api cfg ctx pts)
             @ fst (mpu_finish api ctx (basename sy fp) tsp sz ck (fst (snd (upload_parts sy api cfg ctx pts)))
                     (fulfilled_values (snd (snd (upload_parts sy api cfg ctx pts))))),
           fst (snd (upload_parts sy api cfg ctx pts)),
           snd (mpu_finish api ctx (basename sy fp) tsp sz ck (fst (snd (upload_parts sy api cfg ctx pts)))
                     (fulfilled_values (snd (snd (upload_parts sy api cfg ctx pts)))))))"
proof (cases "isFileTypeDisallowed sy fp \<or> numParts_of cfg sz > S3_MAX_PARTS_JS_MPU")
  case True
  then show ?thesis by (auto simp: handleMultipartUpload_def Let_def)
next
  case nd: False
  show ?thesis
  proof (cases "calculateSHA256Checksum sy fp")
    case (Inl e)
    with nd show ?thesis by (auto simp: handleMultipartUpload_def Let_def)
  next
    case (Inr ck)
    let ?sp = "[(''file_name'', PStr (basename sy fp)), (''collection'', PStr col),
                (''upload_target'', opt_str tsp), (''content_type'', PStr (getMimeType sy fp)),
                (''overall_checksum'', PStr ck)]"
    show ?thesis
    proof (cases "start_session api ?sp")
      case (Inl e)
      with nd Inr show ?thesis by (auto simp: handleMultipartUpload_def Let_def)
    next
      case st: (Inr uk)
      obtain u k where uk: "uk = (u, k)" by (cases uk) auto
      have k: "\<not> falsy k" using start_session_key st uk by blast
      show ?thesis
      proof (cases "partTasks_of cfg fp sz = [] \<and> sz > 0")
        case True
        with nd Inr st uk show ?thesis by (auto simp: handleMultipartUpload_def Let_def)
      next
        case False
        then have ne: "(partTasks_of cfg fp sz = [] \<and> sz > 0) = False" by simp
        show ?thesis
        proof (cases "prepare_parts sy (partTasks_of cfg fp sz)")
          case (Inl e)
          with nd Inr st uk show ?thesis by (auto simp: handleMultipartUpload_def Let_def ne)
        next
          case pr: (Inr pts)
          let ?ctx = "\<lparr>s3UploadId = u, backendS3Key = k, collection_c = col,
                        originalFileMimeType = getMimeType sy fp\<rparr>"
          have "handleMultipartUpload sy api cfg fp sz col tsp =
            (Ev_startMultipartUpload # fst (upload_parts sy api cfg ?ctx pts)
             @ fst (mpu_finish api ?ctx (basename sy fp) tsp sz ck (fst (snd (upload_parts sy api cfg ?ctx pts)))
                     (fulfilled_values (snd (snd (upload_parts sy api cfg ?ctx pts))))),
             fst (snd (upload_parts sy api cfg ?ctx pts)),
             snd (mpu_finish api ?ctx (basename sy fp) tsp sz ck (fst (snd (upload_parts sy api cfg ?ctx pts)))
                     (fulfilled_values (snd (snd (upload_parts sy api cfg ?ctx pts))))))"
            using nd Inr st uk pr by (simp add: handleMultipartUpload_def Let_def ne)
          moreover have "\<not> falsy (backendS3Key ?ctx)" using k by simp
          ultimately show ?thesis using pr by blast
        qed
      qed
    qed
  qed
qed

lemma handleMultipartUpload_shape:
  assumes "handleMultipartUpload sy api cfg fp sz col tsp = (evs, tasks, res)"
  shows "(tasks = [] \<and> isl res \<and> Ev_abortMultipartUpload \<notin> set evs
            \<and> (\<forall>ps. Ev_completeMultipartUpload ps \<notin> set evs))
       \<or> (\<exists>pre fin infos. evs = Ev_startMultipartUpload # pre @ fin
            \<and> Ev_abortMultipartUpload \<notin> set pre \<and> (\<forall>ps. Ev_completeMultipartUpload ps \<notin> set pre)
            \<and> (length infos = length tasks \<longleftrightarrow> (\<forall>pt\<in>set tasks. \<not> falsy (etag pt)))
            \<and> (\<forall>i\<in>set infos. ETag i \<noteq> [])
            \<and> (\<forall>pt\<in>set tasks. \<exists>buf. data pt = Some buf \<and> int (length buf) = size_p pt)
            \<and> ((length tasks > 0 \<and> length infos \<noteq> length tasks \<and> fin = [Ev_abortMultipartUpload]
                  \<and> res = Inl (Parts_failed (map partNumber (filter (\<lambda>pt. falsy (etag pt)) tasks))))
               \<or> (\<not> (length tasks > 0 \<and> length infos \<noteq> length tasks)
                   \<and> fin = [Ev_completeMultipartUpload (sort_key PartNumber infos)]
                   \<and> (\<exists>r. res = Inr r \<and> status r = ''success'' \<and> \<not> falsy (s3_key r)))
               \<or> (\<not> (length tasks > 0 \<and> length infos \<noteq> length tasks)
                   \<and> fin = [Ev_completeMultipartUpload (sort_key PartNumber infos), Ev_abortMultipartUpload]
                   \<and> (\<exists>e p. (completeMultipartUpload api p = Inl e
                              \<or> completeMultipartUpload api p = Inr Nullish \<and> e = Type_error)
                            \<and> res = Inl (Failed_to_complete_MPU e)))))"
proof -
  from handleMultipartUpload_cases[of sy api cfg fp sz col tsp]
  consider (early) evs0 e where "handleMultipartUpload sy api cfg fp sz col tsp = (evs0, [], Inl e)"
      "Ev_abortMultipartUpload \<notin> set evs0" "\<forall>ps. Ev_completeMultipartUpload ps \<notin> set evs0"
    | (run) ctx ck pts where "prepare_parts sy (partTasks_of cfg fp sz) = Inr pts" "\<not> falsy (backendS3Key ctx)"
       "handleMultipartUpload sy api cfg fp sz col tsp =
          (Ev_startMultipartUpload # fst (upload_parts sy api cfg ctx pts)
             @ fst (mpu_finish api ctx (basename sy fp) tsp sz ck (fst (snd (upload_parts sy api cfg ctx pts)))
                     (fulfilled_values (snd (snd (upload_parts sy api cfg ctx pts))))),
           fst (snd (upload_parts sy api cfg ctx pts)),
           snd (mpu_finish api ctx (basename sy fp) tsp sz ck (fst (snd (upload_parts sy api cfg ctx pts)))
                     (fulfilled_values (snd (snd (upload_parts sy api cfg ctx pts))))))"
    by blast
  then show ?thesis
  proof cases
    case early
    with assms show ?thesis by auto
  next
    case run
    obtain pre tasks' rs where up: "upload_parts sy api cfg ctx pts = (pre, tasks', rs)"
      by (cases "upload_parts sy api cfg ctx pts") auto
    define infos where "infos = fulfilled_values rs"
    define fin where "fin = mpu_finish api ctx (basename sy fp) tsp sz ck tasks infos"
    from run(3) assms up have eq: "evs = Ev_startMultipartUpload # pre @ fst fin" "tasks = tasks'" "res = snd fin"
      by (simp_all add: fin_def infos_def)
    have prep: "\<forall>pt\<in>set pts. prepared sy pt"
      using prepare_parts_prepared[OF run(1)] partTasks_of_fresh by blast
    from upload_parts_prepared[OF prep up]
    have u: "list_all2 (\<lambda>pt (pt', r). settled_ok pt pt' r) pts (zip tasks' rs)" "length tasks' = length pts"
      "length rs = length pts" "Ev_abortMultipartUpload \<notin> set pre" "\<forall>ps. Ev_completeMultipartUpload ps \<notin> set pre"
      by simp_all
    from fulfilled_count[OF u(1-3)] all_etags_iff[of tasks']
    have cnt: "length infos = length tasks \<longleftrightarrow> (\<forall>pt\<in>set tasks. \<not> falsy (etag pt))"
      and et: "\<forall>i\<in>set infos. ETag i \<noteq> []"
      unfolding infos_def eq by simp_all
    have dat: "\<forall>pt\<in>set tasks. \<exists>buf. data pt = Some buf \<and> int (length buf) = size_p pt"
    proof
      fix pt' assume "pt' \<in> set tasks"
      then obtain j where j: "j < length tasks'" "pt' = tasks' ! j" unfolding eq by (auto simp: in_set_conv_nth)
      with u(1-3) have "settled_ok (pts ! j) pt' (rs ! j)" by (auto simp: list_all2_conv_all_nth)
      moreover have "prepared sy (pts ! j)" using prep j u(2) by simp
      ultimately show "\<exists>buf. data pt' = Some buf \<and> int (length buf) = size_p pt'"
        by (auto simp: settled_ok_def prepared_def)
    qed
    from mpu_finish_cases[of tasks infos api ctx "basename sy fp" tsp sz ck] run(2)
    have "(length tasks > 0 \<and> length infos \<noteq> length tasks \<and> fst fin = [Ev_abortMultipartUpload]
                  \<and> res = Inl (Parts_failed (map partNumber (filter (\<lambda>pt. falsy (etag pt)) tasks))))
               \<or> (\<not> (length tasks > 0 \<and> length infos \<noteq> length tasks)
                   \<and> fst fin = [Ev_completeMultipartUpload (sort_key PartNumber infos)]
                   \<and> (\<exists>r. res = Inr r \<and> status r = ''success'' \<and> \<not> falsy (s3_key r)))
               \<or> (\<not> (length tasks > 0 \<and> length infos \<noteq> length tasks)
                   \<and> fst fin = [Ev_completeMultipartUpload (sort_key PartNumber infos), Ev_abortMultipartUpload]
                   \<and> (\<exists>e p. (completeMultipartUpload api p = Inl e
                              \<or> completeMultipartUpload api p = Inr Nullish \<and> e = Type_error)
                            \<and> res = Inl (Failed_to_complete_MPU e)))"
      unfolding eq(3) fin_def[symmetric] by auto
    with eq(1) u(4,5) cnt et dat show ?thesis by blast
  qed
qed


lemma part_attempt_abort [simp]:
  "part_attempt (api\<lparr>abortMultipartUpload := ab\<rparr>) ctx pt a = part_attempt api ctx pt a"
  by (simp add: part_attempt_def Let_def split: sum.splits body.splits)

lemma part_attempts_abort [simp]:
  "part_attempts (api\<lparr>abortMultipartUpload := ab\<rparr>) n ctx pt k = part_attempts api n ctx pt k"
proof (induction api n ctx pt k rule: part_attempts.induct)
  case (1 api n ctx pt k)
  show ?case
  proof (cases "k \<le> n \<and> isl (snd (part_attempt api ctx (pt\<lparr>retries := k\<rparr>) k)) \<and> \<not> k \<ge> n")
    case True
    then obtain e where e: "snd (part_attempt api ctx (pt\<lparr>retries := k\<rparr>) k) = Inl e"
      by (cases "snd (part_attempt api ctx (pt\<lparr>retries := k\<rparr>) k)") auto
    from "1.IH"[OF _ refl refl e] True
    have ih: "part_attempts (api\<lparr>abortMultipartUpload := ab\<rparr>) n ctx (pt\<lparr>retries := k\<rparr>) (Suc k)
              = part_attempts api n ctx (pt\<lparr>retries := k\<rparr>) (Suc k)" by simp
    from e have e': "snd (part_attempt api ctx pt k) = Inl e" by simp
    show ?thesis
      by (subst part_attempts.simps, subst (2) part_attempts.simps) (simp add: Let_def ih e')
  next
    case False
    then show ?thesis
      by (subst part_attempts.simps, subst (2) part_attempts.simps)
         (auto simp: Let_def split: sum.splits)
  qed
qed

lemma uploadSinglePart_abort [simp]:
  "uploadSinglePartWithRetryJS_MPU sy (api\<lparr>abortMultipartUpload := ab\<rparr>) cfg ctx pt
     = uploadSinglePartWithRetryJS_MPU sy api cfg ctx pt"
  by (simp add: uploadSinglePartWithRetryJS_MPU_def Let_def cong: sum.case_cong option.case_cong)

lemma upload_parts_abort [simp]:
  "upload_parts sy (api\<lparr>abortMultipartUpload := ab\<rparr>) cfg ctx pts = upload_parts sy api cfg ctx pts"
  by (induction pts) (simp_all add: Let_def)

lemma mpu_finish_abort [simp]:
  "mpu_finish (api\<lparr>abortMultipartUpload := ab\<rparr>) ctx bn tsp sz ck tasks infos
     = mpu_finish api ctx bn tsp sz ck tasks infos"
  unfolding mpu_finish_def Let_def by (auto split: sum.splits body.splits)

lemma handleMultipartUpload_abort:
  "handleMultipartUpload sy (api\<lparr>abortMultipartUpload := ab\<rparr>) cfg fp sz col tsp
     = handleMultipartUpload sy api cfg fp sz col tsp"
  by (simp add: handleMultipartUpload_def start_session_def Let_def
        cong: sum.case_cong option.case_cong prod.case_cong if_cong)

lemma part_attempts_all_fail:
  assumes "\<forall>a\<le>n. snd (part_attempt api ctx pt a) = Inl (e a)" and "k \<le> n"
  shows "part_attempts api n ctx pt k =
     (concat (map (\<lambda>a. fst (part_attempt api ctx pt a) @ (if a < n then [Ev_setTimeout (2 ^ a * 1000)] else []))
                [k..<Suc n]),
      pt\<lparr>retries := n, error := Some (e n)\<rparr>, None)"
  using assms
proof (induction "n - k" arbitrary: k pt)
  case 0
  then have "k = n" by simp
  then show ?case using 0 by (subst part_attempts.simps) (simp add: Let_def)
next
  case (Suc d)
  then have lt: "k < n" by simp
  have up: "[k..<Suc n] = k # [Suc k..<Suc n]" using lt by (simp add: upt_conv_Cons)
  have ih: "part_attempts api n ctx (pt\<lparr>retries := k\<rparr>) (Suc k) =
     (concat (map (\<lambda>a. fst (part_attempt api ctx pt a) @ (if a < n then [Ev_setTimeout (2 ^ a * 1000)] else []))
                [Suc k..<Suc n]),
      pt\<lparr>retries := n, error := Some (e n)\<rparr>, None)"
    using Suc(1)[of "Suc k" "pt\<lparr>retries := k\<rparr>"] Suc(2-) lt by simp
  have f: "snd (part_attempt api ctx pt k) = Inl (e k)" using Suc.prems by simp
  show ?case
    by (subst part_attempts.simps) (use lt f ih in \<open>simp add: Let_def up del: upt_Suc\<close>)
qed

section \<open>Example runs\<close>


lemma run_ok:
  "handleMultipartUpload sys_ex api_ok cfg_5MiB ''data.bin'' 3 ''col'' None =
  ([Ev_startMultipartUpload, Ev_getPresignedUrlForPart 1 0, Ev_uploadPartToS3PresignedPut 1 0,
    Ev_completeMultipartUpload [\<lparr>PartNumber = 1, ETag = ''e1'', ChecksumSHA256 = Some ''EjRW''\<rparr>]],
   [\<lparr>partNumber = 1, offset = 0, size_p = 3, filePath = ''data.bin'', data = Some [0, 0, 0],
     checksumSHA256 = Some ''EjRW'', etag = Some ''e1'', error = None, retries = 0\<rparr>],
   Inr \<lparr>file_r = ''data.bin'', status = ''success'', s3_key = Some ''col/data.bin'',
        location = Some ''https://s3/col/data.bin''\<rparr>)"
  by code_simp

lemma run_put_fails:
  "handleMultipartUpload sys_ex api_put_fails cfg_5MiB ''data.bin'' 3 ''col'' None =
  ([Ev_startMultipartUpload, Ev_getPresignedUrlForPart 1 0, Ev_uploadPartToS3PresignedPut 1 0,
    Ev_setTimeout 1000, Ev_getPresignedUrlForPart 1 1, Ev_uploadPartToS3PresignedPut 1 1,
    Ev_abortMultipartUpload],
   [\<lparr>partNumber = 1, offset = 0, size_p = 3, filePath = ''data.bin'', data = Some [0, 0, 0],
     checksumSHA256 = Some ''EjRW'', etag = None, error = Some (Thrown ''boom''), retries = 1\<rparr>],
   Inl (Parts_failed [1]))"
  by code_simp

lemma run_complete_fails:
  "handleMultipartUpload sys_ex api_complete_fails cfg_5MiB ''data.bin'' 3 ''col'' None =
  ([Ev_startMultipartUpload, Ev_getPresignedUrlForPart 1 0, Ev_uploadPartToS3PresignedPut 1 0,
    Ev_completeMultipartUpload [\<lparr>PartNumber = 1, ETag = ''e1'', ChecksumSHA256 = Some ''EjRW''\<rparr>],
    Ev_abortMultipartUpload],
   [\<lparr>partNumber = 1, offset = 0, size_p = 3, filePath = ''data.bin'', data = Some [0, 0, 0],
     checksumSHA256 = Some ''EjRW'', etag = Some ''e1'', error = None, retries = 0\<rparr>],
   Inl (Failed_to_complete_MPU (Thrown ''complete failed'')))"
  by code_simp

section \<open>Multipart session: completion and abort\<close>



text \<open>
  Claim C6.  When a part record lacks an ETag after the part uploads have settled, or when
  the completion call was made and the transfer fails, the abort call is made and the error
  thrown is the original failure: \<open>One or more parts failed\<close> with the numbers of the parts
  without ETag, or \<open>Failed to complete MPU with backend\<close> with the error of the completion
  call.  The whole outcome is the same whatever the abort call answers, so a failing abort
  never replaces that error.
\<close>

theorem C6_abort_failure_does_not_mask:
  assumes "handleMultipartUpload sy api cfg fp sz col tsp = (evs, tasks, res)"
  shows "((\<exists>pt\<in>set tasks. falsy (etag pt)) \<longrightarrow>
            Ev_abortMultipartUpload \<in> set evs
            \<and> res = Inl (Parts_failed (map partNumber (filter (\<lambda>pt. falsy (etag pt)) tasks))))
       \<and> ((\<exists>ps. Ev_completeMultipartUpload ps \<in> set evs) \<and> isl res \<longrightarrow>
            Ev_abortMultipartUpload \<in> set evs
            \<and> (\<exists>e p. (completeMultipartUpload api p = Inl e
                        \<or> completeMultipartUpload api p = Inr Nullish \<and> e = Type_error)
                     \<and> res = Inl (Failed_to_complete_MPU e)))
       \<and> (\<forall>ab. handleMultipartUpload sy (api\<lparr>abortMultipartUpload := ab\<rparr>) cfg fp sz col tsp
                  = (evs, tasks, res))"
proof -
  have indep: "\<forall>ab. handleMultipartUpload sy (api\<lparr>abortMultipartUpload := ab\<rparr>) cfg fp sz col tsp
                  = (evs, tasks, res)"
    using assms by (simp add: handleMultipartUpload_abort)
  from handleMultipartUpload_shape[OF assms]
  consider (early) "tasks = []" "Ev_abortMultipartUpload \<notin> set evs"
      "\<forall>ps. Ev_completeMultipartUpload ps \<notin> set evs"
    | (abort) pre where "evs = Ev_startMultipartUpload # pre @ [Ev_abortMultipartUpload]"
        "\<forall>ps. Ev_completeMultipartUpload ps \<notin> set pre"
        "res = Inl (Parts_failed (map partNumber (filter (\<lambda>pt. falsy (etag pt)) tasks)))"
    | (complete) r where "\<forall>pt\<in>set tasks. \<not> falsy (etag pt)" "res = Inr r"
    | (complete_failed) pre infos e p where "\<forall>pt\<in>set tasks. \<not> falsy (etag pt)"
        "evs = Ev_startMultipartUpload # pre
                 @ [Ev_completeMultipartUpload (sort_key PartNumber infos), Ev_abortMultipartUpload]"
        "completeMultipartUpload api p = Inl e
           \<or> completeMultipartUpload api p = Inr Nullish \<and> e = Type_error"
        "res = Inl (Failed_to_complete_MPU e)"
  proof -
    from handleMultipartUpload_shape[OF assms]
    show ?thesis
    proof (elim disjE exE conjE, goal_cases)
      case 1
      then show ?case using that(1) by blast
    next
      case (2 pre fin infos)
      then show ?case using that(2) by blast
    next
      case (3 pre fin infos r)
      then have "length infos = length tasks" by (cases tasks) auto
      with 3 show ?case using that(3) by blast
    next
      case (4 pre fin infos e p)
      then have "length infos = length tasks" by (cases tasks) auto
      with 4 show ?case using that(4)[of pre infos p e] by blast
    next
      case (5 pre fin infos e p)
      then have "length infos = length tasks" by (cases tasks) auto
      with 5 show ?case using that(4)[of pre infos p e] by blast
    qed
  qed
  then show ?thesis
  proof cases
    case early
    with indep show ?thesis by simp
  next
    case abort
    with indep show ?thesis by simp
  next
    case complete
    with indep show ?thesis by simp
  next
    case complete_failed
    with indep show ?thesis by auto
  qed
qed


theorem C6_abort_failure_does_not_mask_witness:
  "abortMultipartUpload api_complete_fails [] = Inl (Thrown ''abort failed'')
   \<and> (\<exists>ps. Ev_completeMultipartUpload ps
          \<in> set (fst (handleMultipartUpload sys_ex api_complete_fails cfg_5MiB ''data.bin'' 3 ''col'' None)))
   \<and> isl (snd (snd (handleMultipartUpload sys_ex api_complete_fails cfg_5MiB ''data.bin'' 3 ''col'' None)))
   \<and> Ev_abortMultipartUpload
        \<in> set (fst (handleMultipartUpload sys_ex api_complete_fails cfg_5MiB ''data.bin'' 3 ''col'' None))
   \<and> snd (snd (handleMultipartUpload sys_ex api_complete_fails cfg_5MiB ''data.bin'' 3 ''col'' None))
       = Inl (Failed_to_complete_MPU (Thrown ''complete failed''))
   \<and> abortMultipartUpload api_put_fails [] = Inl (Thrown ''abort failed'')
   \<and> (\<exists>pt\<in>set (fst (snd (handleMultipartUpload sys_ex api_put_fails cfg_5MiB ''data.bin'' 3 ''col'' None))).
         falsy (etag pt))
   \<and> Ev_abortMultipartUpload
        \<in> set (fst (handleMultipartUpload sys_ex api_put_fails cfg_5MiB ''data.bin'' 3 ''col'' None))
   \<and> snd (snd (handleMultipartUpload sys_ex api_put_fails cfg_5MiB ''data.bin'' 3 ''col'' None))
       = Inl (Parts_failed [1])"
proof -
  let ?r = "handleMultipartUpload sys_ex api_complete_fails cfg_5MiB ''data.bin'' 3 ''col'' None"
  let ?q = "handleMultipartUpload sys_ex api_put_fails cfg_5MiB ''data.bin'' 3 ''col'' None"
  have p: "?r = (fst ?r, fst (snd ?r), snd (snd ?r))" by simp
  have q: "?q = (fst ?q, fst (snd ?q), snd (snd ?q))" by simp
  have a: "abortMultipartUpload api_complete_fails [] = Inl (Thrown ''abort failed'')"
    "abortMultipartUpload api_put_fails [] = Inl (Thrown ''abort failed'')"
    by (simp_all add: api_complete_fails_def api_put_fails_def)
  have h1: "\<exists>ps. Ev_completeMultipartUpload ps \<in> set (fst ?r)" by (simp add: run_complete_fails)
  have h2: "isl (snd (snd ?r))" by (simp add: run_complete_fails)
  have h3: "\<exists>pt\<in>set (fst (snd ?q)). falsy (etag pt)" by (simp add: run_put_fails falsy_def)
  have r1: "snd (snd ?r) = Inl (Failed_to_complete_MPU (Thrown ''complete failed''))"
    by (simp add: run_complete_fails)
  have r2: "snd (snd ?q) = Inl (Parts_failed [1])" by (simp add: run_put_fails)
  from C6_abort_failure_does_not_mask[OF p] h1 h2
  have "Ev_abortMultipartUpload \<in> set (fst ?r)" by blast
  moreover from C6_abort_failure_does_not_mask[OF q] h3
  have "Ev_abortMultipartUpload \<in> set (fst ?q)" by blast
  ultimately show ?thesis using a h1 h2 h3 r1 r2 by blast
qed

lemma uploadSinglePart_data_kept:
  assumes "data pt = Some buf" and "\<not> falsy (checksumSHA256 pt)"
  shows "data (fst (snd (uploadSinglePartWithRetryJS_MPU sy api cfg ctx pt))) = Some buf"
proof -
  obtain evs1 pt1 v1 where pa: "part_attempts api (retry_attempts cfg) ctx pt 0 = (evs1, pt1, v1)"
    by (cases "part_attempts api (retry_attempts cfg) ctx pt 0") auto
  from part_attempts_inv[OF pa] have "data pt1 = data pt" by (simp add: part_kept_def)
  with assms pa show ?thesis
    unfolding uploadSinglePartWithRetryJS_MPU_def Let_def
    by (auto split: sum.splits option.splits)
qed

text \<open>
  Claim C7, as amended.  A part record that holds its byte buffer still holds it when its
  upload concludes, whether the upload returned the part's ETag, returned \<open>null\<close> after the
  last retry, or rejected; and when the part uploads of a multipart transfer have settled,
  every part record holds a buffer of the part's length.  Nothing releases the buffer.
\<close>

theorem C7_part_buffer_retained:
  "(data pt \<noteq> None \<longrightarrow>
      data (fst (snd (uploadSinglePartWithRetryJS_MPU sy api cfg ctx pt))) \<noteq> None)
   \<and> (\<forall>buf. data pt = Some buf \<and> \<not> falsy (checksumSHA256 pt) \<longrightarrow>
         data (fst (snd (uploadSinglePartWithRetryJS_MPU sy api cfg ctx pt))) = Some buf)
   \<and> (\<forall>pt'\<in>set (fst (snd (handleMultipartUpload sy api cfg fp sz col tsp))).
         \<exists>buf. data pt' = Some buf \<and> int (length buf) = size_p pt')"
proof (intro conjI impI allI)
  assume "data pt \<noteq> None"
  then show "data (fst (snd (uploadSinglePartWithRetryJS_MPU sy api cfg ctx pt))) \<noteq> None"
    by (rule uploadSinglePart_data)
next
  fix buf assume "data pt = Some buf \<and> \<not> falsy (checksumSHA256 pt)"
  then show "data (fst (snd (uploadSinglePartWithRetryJS_MPU sy api cfg ctx pt))) = Some buf"
    using uploadSinglePart_data_kept by blast
next
  let ?r = "handleMultipartUpload sy api cfg fp sz col tsp"
  have p: "?r = (fst ?r, fst (snd ?r), snd (snd ?r))" by simp
  from handleMultipartUpload_shape[OF p]
  show "\<forall>pt'\<in>set (fst (snd ?r)). \<exists>buf. data pt' = Some buf \<and> int (length buf) = size_p pt'"
    by (elim disjE exE conjE) simp_all
qed

lemma part_run_ok:
  "uploadSinglePartWithRetryJS_MPU sys_ex api_ok cfg_5MiB ctx_ex part_ex =
     ([Ev_getPresignedUrlForPart 1 0, Ev_uploadPartToS3PresignedPut 1 0],
      part_ex\<lparr>etag := Some ''e1''\<rparr>,
      Inr (Some \<lparr>PartNumber = 1, ETag = ''e1'', ChecksumSHA256 = Some ''EjRW''\<rparr>))"
  by code_simp

lemma part_run_fails:
  "uploadSinglePartWithRetryJS_MPU sys_ex api_put_fails cfg_5MiB ctx_ex part_ex =
     ([Ev_getPresignedUrlForPart 1 0, Ev_uploadPartToS3PresignedPut 1 0, Ev_setTimeout 1000,
       Ev_getPresignedUrlForPart 1 1, Ev_uploadPartToS3PresignedPut 1 1],
      part_ex\<lparr>retries := 1, error := Some (Thrown ''boom'')\<rparr>,
      Inr None)"
  by code_simp

theorem C7_part_buffer_retained_witness:
  "data part_ex = Some [0, 0, 0] \<and> \<not> falsy (checksumSHA256 part_ex)
   \<and> data (fst (snd (uploadSinglePartWithRetryJS_MPU sys_ex api_ok cfg_5MiB ctx_ex part_ex)))
       = Some [0, 0, 0]
   \<and> data (fst (snd (uploadSinglePartWithRetryJS_MPU sys_ex api_put_fails cfg_5MiB ctx_ex part_ex)))
       = Some [0, 0, 0]"
proof -
  have h: "data part_ex = Some [0, 0, 0] \<and> \<not> falsy (checksumSHA256 part_ex)"
    by (simp add: part_ex_def falsy_def)
  from C7_part_buffer_retained[of part_ex sys_ex api_ok cfg_5MiB ctx_ex] h
  have "data (fst (snd (uploadSinglePartWithRetryJS_MPU sys_ex api_ok cfg_5MiB ctx_ex part_ex)))
       = Some [0, 0, 0]" by blast
  moreover from C7_part_buffer_retained[of part_ex sys_ex api_put_fails cfg_5MiB ctx_ex] h
  have "data (fst (snd (uploadSinglePartWithRetryJS_MPU sys_ex api_put_fails cfg_5MiB ctx_ex part_ex)))
       = Some [0, 0, 0]" by blast
  ultimately show ?thesis using h by blast
qed

text \<open>
  The claim as stated fails: after a successful part upload, and after one that exhausted
  its retries, the record's \<open>data\<close> is not \<open>null\<close>.
\<close>

theorem C7_buffer_released_counterexample:
  "snd (snd (uploadSinglePartWithRetryJS_MPU sys_ex api_ok cfg_5MiB ctx_ex part_ex))
     = Inr (Some \<lparr>PartNumber = 1, ETag = ''e1'', ChecksumSHA256 = Some ''EjRW''\<rparr>)
   \<and> data (fst (snd (uploadSinglePartWithRetryJS_MPU sys_ex api_ok cfg_5MiB ctx_ex part_ex))) \<noteq> None
   \<and> snd (snd (uploadSinglePartWithRetryJS_MPU sys_ex api_put_fails cfg_5MiB ctx_ex part_ex)) = Inr None
   \<and> data (fst (snd (uploadSinglePartWithRetryJS_MPU sys_ex api_put_fails cfg_5MiB ctx_ex part_ex)))
       \<noteq> None
   \<and> map data (fst (snd (handleMultipartUpload sys_ex api_ok cfg_5MiB ''data.bin'' 3 ''col'' None)))
       = [Some [0, 0, 0]]"
  unfolding part_run_ok part_run_fails run_ok
  by (simp add: part_ex_def new_UploadPartTaskJS_MPU_def)

text \<open>
  What a returned object says.  Whenever the single-unit or the multipart transfer returns
  an object, its \<open>status\<close> is \<open>success\<close>; its \<open>s3_key\<close> is the \<open>s3_key\<close> of an authorization
  response for the single-unit transfer, a non-empty key for the multipart transfer.
\<close>

lemma transfers_return_only_success:
  "(\<forall>r. snd (handleSingleFileUpload sy api cfg fp sz col tsp) = Inr r \<longrightarrow>
          status r = ''success''
          \<and> (\<exists>a p info. getPresignedUrlSingle api a p = Inr (Obj info) \<and> s3_key r = s3_key_single info))
   \<and> (\<forall>r. snd (snd (handleMultipartUpload sy api cfg fp sz col tsp)) = Inr r \<longrightarrow>
          status r = ''success'' \<and> \<not> falsy (s3_key r))"
proof (intro conjI allI impI)
  fix r assume "snd (handleSingleFileUpload sy api cfg fp sz col tsp) = Inr r"
  from single_result[OF this]
  show "status r = ''success''"
    and "\<exists>a p info. getPresignedUrlSingle api a p = Inr (Obj info) \<and> s3_key r = s3_key_single info"
    by blast+
next
  fix r assume a: "snd (snd (handleMultipartUpload sy api cfg fp sz col tsp)) = Inr r"
  let ?r = "handleMultipartUpload sy api cfg fp sz col tsp"
  have p: "?r = (fst ?r, fst (snd ?r), snd (snd ?r))" by simp
  from handleMultipartUpload_shape[OF p] a
  show "status r = ''success''" and "\<not> falsy (s3_key r)"
    by (elim disjE exE conjE; simp)+
qed

text \<open>
  Every failure is thrown.  The single-unit transfer returns an object only when the file
  type is allowed, the checksum was computed, the authorization loop ended with a response,
  the storage write was answered with status 204 (POST) or 200 (PUT, after the file was
  read), and the confirmation call resolved; whenever one of these steps fails the outcome
  is a thrown error.  The returned object is then determined: \<open>success\<close>, with the \<open>s3_key\<close>
  field of the authorization response, which no step examines.
\<close>

lemma single_returns_after_every_step:
  assumes "snd (handleSingleFileUpload sy api cfg fp sz col tsp) = Inr r"
  shows "\<not> isFileTypeDisallowed sy fp
     \<and> (\<exists>c info etg.
           calculateSHA256Checksum sy fp = Inr c
         \<and> snd (presign_attempts api (retry_attempts cfg) (initiatePayload_of sy fp sz col tsp c) 0)
             = Inr (Obj info)
         \<and> (case fields_p info of
               Some flds \<Rightarrow>
                 (\<exists>resp. uploadToS3PresignedPost api (url info) flds fp (basename sy fp) (getMimeType sy fp)
                           = Inr resp \<and> status_code resp = 204 \<and> etg = etag_of resp)
             | None \<Rightarrow>
                 (\<exists>d resp. readFile sy fp = Inr d
                    \<and> uploadPartToS3PresignedPut api 0 0 (url info) (Some d) = Inr resp
                    \<and> status_code resp = 200 \<and> etg = etag_of resp))
         \<and> (\<exists>u. confirmSingleUpload api
               [(''s3_key'', opt_str (s3_key_single info)),
                (''file_name'', PStr (basename sy fp)), (''collection'', PStr col),
                (''size_bytes'', PNum sz), (''checksum'', PStr c),
                (''file_type'', PStr (getMimeType sy fp)), (''collection_path'', opt_str tsp),
                (''s3_etag'', (if falsy etg then PNull else opt_str etg))] = Inr u)
         \<and> r = \<lparr>file_r = basename sy fp, status = ''success'', s3_key = s3_key_single info,
                 location = None\<rparr>)"
proof -
  from assms have nd: "\<not> isFileTypeDisallowed sy fp"
    by (auto simp: handleSingleFileUpload_def Let_def split: if_splits)
  from assms nd obtain c info where
    ck: "calculateSHA256Checksum sy fp = Inr c" and
    a: "snd (presign_attempts api (retry_attempts cfg) (initiatePayload_of sy fp sz col tsp c) 0) = Inr (Obj info)"
    and t: "snd (single_transfer sy api fp sz col tsp c (getMimeType sy fp) info) = Inr r"
    by (auto simp: handleSingleFileUpload_def Let_def split: if_splits sum.splits body.splits)
  from t have "\<exists>etg. (case fields_p info of
               Some flds \<Rightarrow>
                 (\<exists>resp. uploadToS3PresignedPost api (url info) flds fp (basename sy fp) (getMimeType sy fp)
                           = Inr resp \<and> status_code resp = 204 \<and> etg = etag_of resp)
             | None \<Rightarrow>
                 (\<exists>d resp. readFile sy fp = Inr d
                    \<and> uploadPartToS3PresignedPut api 0 0 (url info) (Some d) = Inr resp
                    \<and> status_code resp = 200 \<and> etg = etag_of resp))
         \<and> (\<exists>u. confirmSingleUpload api
               [(''s3_key'', opt_str (s3_key_single info)),
                (''file_name'', PStr (basename sy fp)), (''collection'', PStr col),
                (''size_bytes'', PNum sz), (''checksum'', PStr c),
                (''file_type'', PStr (getMimeType sy fp)), (''collection_path'', opt_str tsp),
                (''s3_etag'', (if falsy etg then PNull else opt_str etg))] = Inr u)
         \<and> r = \<lparr>file_r = basename sy fp, status = ''success'', s3_key = s3_key_single info,
                 location = None\<rparr>"
    unfolding single_transfer_def Let_def
    by (auto split: option.splits sum.splits if_splits)
  with nd ck a show ?thesis by blast
qed


text \<open>
  The multipart transfer returns an object only when the file type is allowed, the part
  count is within the limit, the checksum was computed, the start response carried a
  non-empty \<open>upload_id\<close> and a non-empty \<open>s3_key\<close>, every part was read, every part record
  holds an ETag, the completion call resolved, and no abort call was made.
\<close>

lemma multipart_returns_after_every_step:
  assumes "handleMultipartUpload sy api cfg fp sz col tsp = (evs, tasks, Inr r)"
  shows "\<not> isFileTypeDisallowed sy fp \<and> \<not> numParts_of cfg sz > S3_MAX_PARTS_JS_MPU
     \<and> (\<exists>ck u k pts.
           calculateSHA256Checksum sy fp = Inr ck
         \<and> start_session api
              [(''file_name'', PStr (basename sy fp)), (''collection'', PStr col),
               (''upload_target'', opt_str tsp), (''content_type'', PStr (getMimeType sy fp)),
               (''overall_checksum'', PStr ck)] = Inr (u, k)
         \<and> \<not> falsy u \<and> \<not> falsy k
         \<and> prepare_parts sy (partTasks_of cfg fp sz) = Inr pts
         \<and> s3_key r = k)
     \<and> (\<forall>pt\<in>set tasks. \<not> falsy (etag pt))
     \<and> (\<exists>p b. completeMultipartUpload api p = Inr b \<and> b \<noteq> Nullish)
     \<and> Ev_abortMultipartUpload \<notin> set evs
     \<and> file_r r = basename sy fp \<and> status r = ''success''"
proof -
  have nd: "\<not> isFileTypeDisallowed sy fp" "\<not> numParts_of cfg sz > S3_MAX_PARTS_JS_MPU"
    using assms by (auto simp: handleMultipartUpload_def Let_def split: if_splits)
  from assms nd obtain ck where ck: "calculateSHA256Checksum sy fp = Inr ck"
    by (cases "calculateSHA256Checksum sy fp") (auto simp: handleMultipartUpload_def Let_def)
  let ?sp = "[(''file_name'', PStr (basename sy fp)), (''collection'', PStr col),
               (''upload_target'', opt_str tsp), (''content_type'', PStr (getMimeType sy fp)),
               (''overall_checksum'', PStr ck)]"
  from assms nd ck obtain u k where st: "start_session api ?sp = Inr (u, k)"
    by (cases "start_session api ?sp") (auto simp: handleMultipartUpload_def Let_def)
  have uk: "\<not> falsy u" "\<not> falsy k"
    using st by (auto simp: start_session_def Let_def split: sum.splits body.splits if_splits)
  from assms nd ck st have "\<not> (partTasks_of cfg fp sz = [] \<and> sz > 0)"
    by (auto simp: handleMultipartUpload_def Let_def split: if_splits)
  then have ne: "(partTasks_of cfg fp sz = [] \<and> sz > 0) = False" by simp
  from assms nd ck st obtain pts where pr: "prepare_parts sy (partTasks_of cfg fp sz) = Inr pts"
    by (cases "prepare_parts sy (partTasks_of cfg fp sz)") (auto simp: handleMultipartUpload_def Let_def ne)
  let ?ctx = "\<lparr>s3UploadId = u, backendS3Key = k, collection_c = col,
                originalFileMimeType = getMimeType sy fp\<rparr>"
  let ?up = "upload_parts sy api cfg ?ctx pts"
  let ?fin = "mpu_finish api ?ctx (basename sy fp) tsp sz ck (fst (snd ?up)) (fulfilled_values (snd (snd ?up)))"
  have eq: "handleMultipartUpload sy api cfg fp sz col tsp
              = (Ev_startMultipartUpload # fst ?up @ fst ?fin, fst (snd ?up), snd ?fin)"
    using nd ck st pr by (simp add: handleMultipartUpload_def Let_def ne)
  have "snd (snd (handleMultipartUpload sy api cfg fp sz col tsp)) = Inr r" using assms by simp
  then have fin: "snd ?fin = Inr r" unfolding eq by simp
  from fin have r: "s3_key r = k" "file_r r = basename sy fp" "status r = ''success''"
    and cp: "\<exists>p b. completeMultipartUpload api p = Inr b \<and> b \<noteq> Nullish"
    unfolding mpu_finish_def Let_def
    by (auto split: if_splits sum.splits body.splits)
  from handleMultipartUpload_shape[OF assms]
  have et: "\<forall>pt\<in>set tasks. \<not> falsy (etag pt)" and ab: "Ev_abortMultipartUpload \<notin> set evs"
    by (elim disjE exE conjE; force)+
  from nd ck st uk pr r cp et ab show ?thesis by blast
qed


lemma single_run_ok:
  "handleSingleFileUpload sys_ex api_ok cfg_5MiB ''data.bin'' 0 ''col'' None =
     ([Ev_getPresignedUrlSingle 0, Ev_uploadPut, Ev_confirmSingleUpload],
      Inr \<lparr>file_r = ''data.bin'', status = ''success'', s3_key = Some ''col/data.bin'',
           location = None\<rparr>)"
  by code_simp

text \<open>
  Claim C9.  The transfers return no object that describes a failure, and every failure is
  thrown (the three lemmas above).  The object returned by the single-unit transfer can
  however lack the storage key: when the authorization response carries a \<open>url\<close> and no
  \<open>s3_key\<close>, and the storage write and the confirmation succeed, the transfer returns
  \<open>{ file: "data.bin", status: "success", s3_key: undefined }\<close>.  The multipart transfer
  rejects the same defect of its start response with \<open>Failed to initiate MPU: Backend MPU
  start error.\<close> before any part is sent.
\<close>

theorem C9_single_success_without_s3_key:
  "handleSingleFileUpload sys_ex api_no_key cfg_5MiB ''data.bin'' 0 ''col'' None =
     ([Ev_getPresignedUrlSingle 0, Ev_uploadPut, Ev_confirmSingleUpload],
      Inr \<lparr>file_r = ''data.bin'', status = ''success'', s3_key = None, location = None\<rparr>)
   \<and> handleMultipartUpload sys_ex api_start_no_key cfg_5MiB ''data.bin'' 3 ''col'' None =
     ([Ev_startMultipartUpload], [], Inl (Failed_to_initiate_MPU Backend_MPU_start_error))"
  by code_simp

text \<open>
  Claim C10.  In the single-unit transfer, once the authorization is obtained: a form-style
  POST answered with any status other than 204 makes the transfer throw \<open>S3 upload (POST)
  failed\<close> after that one storage call, a PUT answered with any status other than 200 makes
  it throw \<open>S3 upload (PUT) failed\<close> after that one storage call, and a transfer that
  returns had its POST answered with 204, or its PUT with 200.
\<close>

theorem C10_single_exact_status:
  assumes "\<not> isFileTypeDisallowed sy fp"
    and "calculateSHA256Checksum sy fp = Inr c"
    and "presign_attempts api (retry_attempts cfg) (initiatePayload_of sy fp sz col tsp c) 0
           = (evs0, Inr (Obj info))"
  shows "(\<forall>flds resp. fields_p info = Some flds
            \<and> uploadToS3PresignedPost api (url info) flds fp (basename sy fp) (getMimeType sy fp) = Inr resp
            \<and> status_code resp \<noteq> 204
          \<longrightarrow> handleSingleFileUpload sy api cfg fp sz col tsp
                = (evs0 @ [Ev_uploadToS3PresignedPost], Inl (S3_POST_failed (status_code resp))))
       \<and> (\<forall>d resp. fields_p info = None \<and> readFile sy fp = Inr d
            \<and> uploadPartToS3PresignedPut api 0 0 (url info) (Some d) = Inr resp
            \<and> status_code resp \<noteq> 200
          \<longrightarrow> handleSingleFileUpload sy api cfg fp sz col tsp
                = (evs0 @ [Ev_uploadPut], Inl (S3_PUT_failed (status_code resp))))
       \<and> (\<forall>res. snd (handleSingleFileUpload sy api cfg fp sz col tsp) = Inr res
          \<longrightarrow> (case fields_p info of
                 Some flds \<Rightarrow>
                   (\<exists>resp. uploadToS3PresignedPost api (url info) flds fp (basename sy fp) (getMimeType sy fp)
                             = Inr resp \<and> status_code resp = 204)
               | None \<Rightarrow>
                   (\<exists>d resp. readFile sy fp = Inr d
                      \<and> uploadPartToS3PresignedPut api 0 0 (url info) (Some d) = Inr resp
                      \<and> status_code resp = 200)))"
proof -
  have h: "handleSingleFileUpload sy api cfg fp sz col tsp =
        (evs0 @ fst (single_transfer sy api fp sz col tsp c (getMimeType sy fp) info),
         snd (single_transfer sy api fp sz col tsp c (getMimeType sy fp) info))"
    using assms by (simp add: handleSingleFileUpload_def Let_def)
  show ?thesis
    unfolding h
    by (auto simp: single_transfer_def Let_def split: option.splits sum.splits if_splits)
qed

lemma single_run_post_201:
  "handleSingleFileUpload sys_ex api_post_201 cfg_5MiB ''data.bin'' 0 ''col'' None =
     ([Ev_getPresignedUrlSingle 0, Ev_uploadToS3PresignedPost], Inl (S3_POST_failed 201))"
  by code_simp

theorem C10_single_exact_status_witness:
  "\<not> isFileTypeDisallowed sys_ex ''data.bin''
   \<and> calculateSHA256Checksum sys_ex ''data.bin'' = Inr ''q83v''
   \<and> presign_attempts api_post_201 (retry_attempts cfg_5MiB)
        (initiatePayload_of sys_ex ''data.bin'' 0 ''col'' None ''q83v'') 0
       = ([Ev_getPresignedUrlSingle 0],
          Inr (Obj \<lparr>url = Some ''https://s3/post'', fields_p = Some [],
                     s3_key_single = Some ''col/data.bin''\<rparr>))
   \<and> uploadToS3PresignedPost api_post_201 (Some ''https://s3/post'') [] ''data.bin''
        (basename sys_ex ''data.bin'') (getMimeType sys_ex ''data.bin'')
       = Inr \<lparr>status_code = 201, etag_header = Some ''e0''\<rparr>
   \<and> handleSingleFileUpload sys_ex api_post_201 cfg_5MiB ''data.bin'' 0 ''col'' None
       = ([Ev_getPresignedUrlSingle 0] @ [Ev_uploadToS3PresignedPost], Inl (S3_POST_failed 201))"
proof -
  let ?info = "\<lparr>url = Some ''https://s3/post'', fields_p = Some [],
                 s3_key_single = Some ''col/data.bin''\<rparr>"
  let ?resp = "\<lparr>status_code = 201, etag_header = Some ''e0''\<rparr>"
  have h1: "\<not> isFileTypeDisallowed sys_ex ''data.bin''" by code_simp
  have h2: "calculateSHA256Checksum sys_ex ''data.bin'' = Inr ''q83v''" by (simp add: sys_ex_def)
  have h3: "presign_attempts api_post_201 (retry_attempts cfg_5MiB)
        (initiatePayload_of sys_ex ''data.bin'' 0 ''col'' None ''q83v'') 0
       = ([Ev_getPresignedUrlSingle 0], Inr (Obj ?info))" by code_simp
  have h4: "uploadToS3PresignedPost api_post_201 (Some ''https://s3/post'') [] ''data.bin''
        (basename sys_ex ''data.bin'') (getMimeType sys_ex ''data.bin'') = Inr ?resp"
    by (simp add: api_post_201_def)
  from C10_single_exact_status[OF h1 h2 h3, THEN conjunct1, THEN spec, THEN spec, of "[]" ?resp] h4
  have "handleSingleFileUpload sys_ex api_post_201 cfg_5MiB ''data.bin'' 0 ''col'' None
       = ([Ev_getPresignedUrlSingle 0] @ [Ev_uploadToS3PresignedPost], Inl (S3_POST_failed 201))"
    by simp
  with h1 h2 h3 h4 show ?thesis by blast
qed

section \<open>Retry policy\<close>

lemma delays_of_append: "delays_of (xs @ ys) = delays_of xs @ delays_of ys"
  by (induction xs rule: delays_of.induct) simp_all

lemma single_requests_of_append:
  "single_requests_of (xs @ ys) = single_requests_of xs @ single_requests_of ys"
  by (induction xs rule: single_requests_of.induct) simp_all

lemma part_requests_of_append:
  "part_requests_of (xs @ ys) = part_requests_of xs @ part_requests_of ys"
  by (induction xs rule: part_requests_of.induct) simp_all

lemma part_attempt_trace:
  "part_requests_of (fst (part_attempt api ctx pt a)) = [(partNumber pt, a)]"
  "delays_of (fst (part_attempt api ctx pt a)) = []"
  by (auto simp: part_attempt_def Let_def split: sum.splits body.splits option.splits)

lemma filter_less_upt: "filter (\<lambda>a. a < n) [k..<Suc n] = [k..<n]"
  by (induction n) auto

lemma single_trace_requests:
  "single_requests_of
     (concat (map (\<lambda>a. Ev_getPresignedUrlSingle a # (if a < n then [Ev_setTimeout (2 ^ a * 1000)] else [])) xs))
   = xs"
  by (induction xs) simp_all

lemma single_trace_delays:
  "delays_of
     (concat (map (\<lambda>a. Ev_getPresignedUrlSingle a # (if a < n then [Ev_setTimeout (2 ^ a * 1000)] else [])) xs))
   = map (\<lambda>i. 2 ^ i * 1000) (filter (\<lambda>a. a < n) xs)"
  by (induction xs) simp_all

lemma part_trace_requests:
  "part_requests_of
     (concat (map (\<lambda>a. fst (part_attempt api ctx pt a) @ (if a < n then [Ev_setTimeout (2 ^ a * 1000)] else [])) xs))
   = map (\<lambda>a. (partNumber pt, a)) xs"
  by (induction xs) (simp_all add: part_requests_of_append part_attempt_trace)

lemma part_trace_delays:
  "delays_of
     (concat (map (\<lambda>a. fst (part_attempt api ctx pt a) @ (if a < n then [Ev_setTimeout (2 ^ a * 1000)] else [])) xs))
   = map (\<lambda>i. 2 ^ i * 1000) (filter (\<lambda>a. a < n) xs)"
  by (induction xs) (simp_all add: delays_of_append part_attempt_trace)

text \<open>
  Claim C3, as amended.  With \<open>retry_attempts = N\<close>: when every authorization attempt of the
  single-unit transfer fails, the authorization is requested exactly \<open>N + 1\<close> times, attempts
  \<open>0, \<dots>, N\<close>, the wait after failed attempt \<open>i < N\<close> is \<open>2 ^ i\<close> seconds, and the caller
  receives \<open>Failed to get presigned URL after N + 1 attempts\<close> carrying the error of attempt
  \<open>N\<close>.  When every attempt of a part upload fails, the part's URL is requested exactly
  \<open>N + 1\<close> times with the same waits, the loop returns \<open>null\<close>, and the error of attempt \<open>N\<close>
  is stored in the part record's \<open>error\<close>.
\<close>

theorem C3_retry_policy:
  "(\<not> isFileTypeDisallowed sy fp \<and> calculateSHA256Checksum sy fp = Inr c
      \<and> (\<forall>a\<le>retry_attempts cfg.
            presign_attempt api (initiatePayload_of sy fp sz col tsp c) a = Inl (e a)) \<longrightarrow>
        single_requests_of (fst (handleSingleFileUpload sy api cfg fp sz col tsp))
          = [0..<Suc (retry_attempts cfg)]
      \<and> delays_of (fst (handleSingleFileUpload sy api cfg fp sz col tsp))
          = map (\<lambda>i. 2 ^ i * 1000) [0..<retry_attempts cfg]
      \<and> snd (handleSingleFileUpload sy api cfg fp sz col tsp)
          = Inl (Failed_presigned_after (int (retry_attempts cfg) + 1) (e (retry_attempts cfg))))
   \<and> ((\<forall>a\<le>n. snd (part_attempt api ctx pt a) = Inl (e' a)) \<longrightarrow>
        part_requests_of (fst (part_attempts api n ctx pt 0)) = map (\<lambda>a. (partNumber pt, a)) [0..<Suc n]
      \<and> delays_of (fst (part_attempts api n ctx pt 0)) = map (\<lambda>i. 2 ^ i * 1000) [0..<n]
      \<and> snd (part_attempts api n ctx pt 0) = (pt\<lparr>retries := n, error := Some (e' n)\<rparr>, None))"
proof (intro conjI impI)
  assume a: "\<not> isFileTypeDisallowed sy fp \<and> calculateSHA256Checksum sy fp = Inr c
      \<and> (\<forall>a\<le>retry_attempts cfg.
            presign_attempt api (initiatePayload_of sy fp sz col tsp c) a = Inl (e a))"
  let ?n = "retry_attempts cfg"
  let ?tr = "concat (map (\<lambda>a. Ev_getPresignedUrlSingle a
                 # (if a < ?n then [Ev_setTimeout (2 ^ a * 1000)] else [])) [0..<Suc ?n])"
  from a have "presign_attempts api ?n (initiatePayload_of sy fp sz col tsp c) 0
       = (?tr, Inl (Failed_presigned_after (int ?n + 1) (e ?n)))"
    by (intro presign_attempts_all_fail) simp_all
  with a have h: "handleSingleFileUpload sy api cfg fp sz col tsp
       = (?tr, Inl (Failed_presigned_after (int ?n + 1) (e ?n)))"
    by (simp add: handleSingleFileUpload_def Let_def)
  show "single_requests_of (fst (handleSingleFileUpload sy api cfg fp sz col tsp)) = [0..<Suc ?n]"
    unfolding h fst_conv by (rule single_trace_requests)
  show "delays_of (fst (handleSingleFileUpload sy api cfg fp sz col tsp))
          = map (\<lambda>i. 2 ^ i * 1000) [0..<?n]"
    unfolding h fst_conv single_trace_delays filter_less_upt ..
  show "snd (handleSingleFileUpload sy api cfg fp sz col tsp)
          = Inl (Failed_presigned_after (int ?n + 1) (e ?n))"
    unfolding h by simp
next
  assume a: "\<forall>a\<le>n. snd (part_attempt api ctx pt a) = Inl (e' a)"
  then have h: "part_attempts api n ctx pt 0 =
     (concat (map (\<lambda>a. fst (part_attempt api ctx pt a) @ (if a < n then [Ev_setTimeout (2 ^ a * 1000)] else []))
                [0..<Suc n]),
      pt\<lparr>retries := n, error := Some (e' n)\<rparr>, None)"
    by (intro part_attempts_all_fail) simp_all
  show "part_requests_of (fst (part_attempts api n ctx pt 0)) = map (\<lambda>a. (partNumber pt, a)) [0..<Suc n]"
    unfolding h fst_conv by (rule part_trace_requests)
  show "delays_of (fst (part_attempts api n ctx pt 0)) = map (\<lambda>i. 2 ^ i * 1000) [0..<n]"
    unfolding h fst_conv part_trace_delays filter_less_upt ..
  show "snd (part_attempts api n ctx pt 0) = (pt\<lparr>retries := n, error := Some (e' n)\<rparr>, None)"
    unfolding h by simp
qed

lemma single_run_auth_fails:
  "handleSingleFileUpload sys_ex api_auth_fails cfg_5MiB ''data.bin'' 0 ''col'' None =
     ([Ev_getPresignedUrlSingle 0, Ev_setTimeout 1000, Ev_getPresignedUrlSingle 1],
      Inl (Failed_presigned_after 2 (Thrown ''boom'')))"
  by code_simp

theorem C3_retry_policy_witness:
  "\<not> isFileTypeDisallowed sys_ex ''data.bin'' \<and> calculateSHA256Checksum sys_ex ''data.bin'' = Inr ''q83v''
   \<and> presign_attempt api_auth_fails (initiatePayload_of sys_ex ''data.bin'' 0 ''col'' None ''q83v'') 0
       = Inl (Thrown ''boom'')
   \<and> presign_attempt api_auth_fails (initiatePayload_of sys_ex ''data.bin'' 0 ''col'' None ''q83v'') 1
       = Inl (Thrown ''boom'')
   \<and> retry_attempts cfg_5MiB = 1
   \<and> single_requests_of (fst (handleSingleFileUpload sys_ex api_auth_fails cfg_5MiB ''data.bin'' 0 ''col'' None))
       = [0, 1]
   \<and> delays_of (fst (handleSingleFileUpload sys_ex api_auth_fails cfg_5MiB ''data.bin'' 0 ''col'' None))
       = [1000]
   \<and> snd (handleSingleFileUpload sys_ex api_auth_fails cfg_5MiB ''data.bin'' 0 ''col'' None)
       = Inl (Failed_presigned_after 2 (Thrown ''boom''))
   \<and> snd (part_attempt api_put_fails ctx_ex part_ex 0) = Inl (Thrown ''boom'')
   \<and> snd (part_attempt api_put_fails ctx_ex part_ex 1) = Inl (Thrown ''boom'')
   \<and> part_requests_of (fst (part_attempts api_put_fails 1 ctx_ex part_ex 0)) = [(1, 0), (1, 1)]
   \<and> delays_of (fst (part_attempts api_put_fails 1 ctx_ex part_ex 0)) = [1000]
   \<and> snd (part_attempts api_put_fails 1 ctx_ex part_ex 0)
       = (part_ex\<lparr>retries := 1, error := Some (Thrown ''boom'')\<rparr>, None)"
proof -
  let ?p = "initiatePayload_of sys_ex ''data.bin'' 0 ''col'' None ''q83v''"
  have n: "retry_attempts cfg_5MiB = 1" by (simp add: cfg_5MiB_def)
  have h1: "\<not> isFileTypeDisallowed sys_ex ''data.bin''" by code_simp
  have h2: "calculateSHA256Checksum sys_ex ''data.bin'' = Inr ''q83v''" by (simp add: sys_ex_def)
  have h3: "presign_attempt api_auth_fails ?p a = Inl (Thrown ''boom'')" for a
    by (simp add: presign_attempt_def api_auth_fails_def)
  have h4: "snd (part_attempt api_put_fails ctx_ex part_ex a) = Inl (Thrown ''boom'')" for a
    by (simp add: part_attempt_def api_put_fails_def api_ok_def Let_def)
  have pn: "partNumber part_ex = 1" by (simp add: part_ex_def new_UploadPartTaskJS_MPU_def)
  have u1: "[0..<Suc 1] = [0, 1]" "[0..<1] = [0::nat]" by (simp_all add: upt_rec)
  from C3_retry_policy[where sy=sys_ex and fp="''data.bin''" and c="''q83v''" and cfg=cfg_5MiB
        and api=api_auth_fails and sz=0 and col="''col''" and tsp=None and e="\<lambda>_. Thrown ''boom''",
        THEN conjunct1] h1 h2 h3
  have s: "single_requests_of (fst (handleSingleFileUpload sys_ex api_auth_fails cfg_5MiB ''data.bin'' 0 ''col'' None))
          = [0..<Suc 1]
      \<and> delays_of (fst (handleSingleFileUpload sys_ex api_auth_fails cfg_5MiB ''data.bin'' 0 ''col'' None))
          = map (\<lambda>i. 2 ^ i * 1000) [0..<1]
      \<and> snd (handleSingleFileUpload sys_ex api_auth_fails cfg_5MiB ''data.bin'' 0 ''col'' None)
          = Inl (Failed_presigned_after (int 1 + 1) (Thrown ''boom''))"
    unfolding n by simp
  from C3_retry_policy[where api=api_put_fails and n=1 and ctx=ctx_ex and pt=part_ex
        and e'="\<lambda>_. Thrown ''boom''", THEN conjunct2] h4
  have "part_requests_of (fst (part_attempts api_put_fails 1 ctx_ex part_ex 0))
          = map (\<lambda>a. (partNumber part_ex, a)) [0..<Suc 1]
      \<and> delays_of (fst (part_attempts api_put_fails 1 ctx_ex part_ex 0)) = map (\<lambda>i. 2 ^ i * 1000) [0..<1]
      \<and> snd (part_attempts api_put_fails 1 ctx_ex part_ex 0)
          = (part_ex\<lparr>retries := 1, error := Some (Thrown ''boom'')\<rparr>, None)"
    by simp
  with s
  have "single_requests_of (fst (handleSingleFileUpload sys_ex api_auth_fails cfg_5MiB ''data.bin'' 0 ''col'' None))
          = [0..<Suc 1]
      \<and> delays_of (fst (handleSingleFileUpload sys_ex api_auth_fails cfg_5MiB ''data.bin'' 0 ''col'' None))
          = map (\<lambda>i. 2 ^ i * 1000) [0..<1]
      \<and> snd (handleSingleFileUpload sys_ex api_auth_fails cfg_5MiB ''data.bin'' 0 ''col'' None)
          = Inl (Failed_presigned_after (int 1 + 1) (Thrown ''boom''))
      \<and> part_requests_of (fst (part_attempts api_put_fails 1 ctx_ex part_ex 0))
          = map (\<lambda>a. (partNumber part_ex, a)) [0..<Suc 1]
      \<and> delays_of (fst (part_attempts api_put_fails 1 ctx_ex part_ex 0)) = map (\<lambda>i. 2 ^ i * 1000) [0..<1]
      \<and> snd (part_attempts api_put_fails 1 ctx_ex part_ex 0)
          = (part_ex\<lparr>retries := 1, error := Some (Thrown ''boom'')\<rparr>, None)"
    by blast
  then show ?thesis using h1 h2 h3 h4 n unfolding u1 pn by simp
qed

text \<open>
  The claim as stated fails in its last clause: the error the caller receives is not the
  final attempt's error.  The single-unit transfer throws a new error that quotes it; the
  part upload returns \<open>null\<close>, and the multipart transfer then throws \<open>One or more parts
  failed\<close>.
\<close>

theorem C3_final_error_counterexample:
  "presign_attempt api_auth_fails (initiatePayload_of sys_ex ''data.bin'' 0 ''col'' None ''q83v'') 1
       = Inl (Thrown ''boom'')
   \<and> snd (handleSingleFileUpload sys_ex api_auth_fails cfg_5MiB ''data.bin'' 0 ''col'' None)
       \<noteq> Inl (Thrown ''boom'')
   \<and> snd (part_attempt api_put_fails ctx_ex part_ex 1) = Inl (Thrown ''boom'')
   \<and> snd (snd (uploadSinglePartWithRetryJS_MPU sys_ex api_put_fails cfg_5MiB ctx_ex part_ex)) = Inr None
   \<and> snd (snd (handleMultipartUpload sys_ex api_put_fails cfg_5MiB ''data.bin'' 3 ''col'' None))
       = Inl (Parts_failed [1])
   \<and> snd (snd (handleMultipartUpload sys_ex api_put_fails cfg_5MiB ''data.bin'' 3 ''col'' None))
       \<noteq> Inl (Thrown ''boom'')"
proof -
  have "presign_attempt api_auth_fails (initiatePayload_of sys_ex ''data.bin'' 0 ''col'' None ''q83v'') 1
       = Inl (Thrown ''boom'')"
    by (simp add: presign_attempt_def api_auth_fails_def)
  moreover have "snd (part_attempt api_put_fails ctx_ex part_ex 1) = Inl (Thrown ''boom'')"
    by (simp add: part_attempt_def api_put_fails_def api_ok_def Let_def)
  ultimately show ?thesis
    by (simp add: single_run_auth_fails part_run_fails run_put_fails)
qed

section \<open>Dispatch by size and folder results\<close>

text \<open>
  Claim C4.  The entry point, for a regular file of an allowed type, and the folder
  orchestrator, for every file it dispatches, run the single-unit transfer when the file's
  size is at most \<open>multipart_threshold_gb * 1024 ^ 3\<close> bytes and the multipart transfer when
  it is larger; a file of exactly the threshold's size takes the single-unit transfer.
\<close>

theorem C4_threshold_dispatch:
  "(stat sy (resolve sy src) = Inr (IsFile sz) \<and> \<not> isFileTypeDisallowed sy (resolve sy src) \<longrightarrow>
      (sz \<le> multipart_threshold_gb cfg * 1024 ^ 3 \<longrightarrow>
         upload sy api cfg sep pick src col tp =
           Some (fst (handleSingleFileUpload sy api cfg (resolve sy src) sz col tp),
                 map_sum id File_result (snd (handleSingleFileUpload sy api cfg (resolve sy src) sz col tp))))
      \<and> (sz > multipart_threshold_gb cfg * 1024 ^ 3 \<longrightarrow>
         upload sy api cfg sep pick src col tp =
           Some (fst (handleMultipartUpload sy api cfg (resolve sy src) sz col tp),
                 map_sum id File_result
                   (snd (snd (handleMultipartUpload sy api cfg (resolve sy src) sz col tp))))))
   \<and> (size_t ft \<le> multipart_threshold_gb cfg * 1024 ^ 3 \<longrightarrow>
        run_file_task sy api cfg sep col tsp ft =
          handleSingleFileUpload sy api cfg (localPath ft) (size_t ft) col
            (Some (effectiveApiTargetSubPath sep tsp ft)))
   \<and> (size_t ft > multipart_threshold_gb cfg * 1024 ^ 3 \<longrightarrow>
        run_file_task sy api cfg sep col tsp ft =
          (fst (handleMultipartUpload sy api cfg (localPath ft) (size_t ft) col
                  (Some (effectiveApiTargetSubPath sep tsp ft))),
           snd (snd (handleMultipartUpload sy api cfg (localPath ft) (size_t ft) col
                  (Some (effectiveApiTargetSubPath sep tsp ft))))))"
  by (simp add: upload_def run_file_task_def multipartThresholdBytes_def Let_def)

lemma task_1GiB_run:
  "run_file_task sys_ex api_ok defaultConfig (CHR ''/'') ''col'' None task_1GiB =
     ([Ev_getPresignedUrlSingle 0, Ev_uploadPut, Ev_confirmSingleUpload],
      Inr \<lparr>file_r = ''data.bin'', status = ''success'', s3_key = Some ''col/data.bin'',
           location = None\<rparr>)"
  by code_simp

lemma upload_3_run:
  "upload sys_ex api_ok cfg_5MiB (CHR ''/'') hd ''/up/a.txt'' ''col'' None =
     Some ([Ev_startMultipartUpload, Ev_getPresignedUrlForPart 1 0, Ev_uploadPartToS3PresignedPut 1 0,
            Ev_completeMultipartUpload [\<lparr>PartNumber = 1, ETag = ''e1'', ChecksumSHA256 = Some ''EjRW''\<rparr>]],
           Inr (File_result \<lparr>file_r = ''data.bin'', status = ''success'', s3_key = Some ''col/data.bin'',
                             location = Some ''https://s3/col/data.bin''\<rparr>))"
  by code_simp

theorem C4_threshold_dispatch_witness:
  "size_t task_1GiB = multipart_threshold_gb defaultConfig * 1024 ^ 3
   \<and> run_file_task sys_ex api_ok defaultConfig (CHR ''/'') ''col'' None task_1GiB =
       handleSingleFileUpload sys_ex api_ok defaultConfig (localPath task_1GiB) (size_t task_1GiB) ''col''
         (Some (effectiveApiTargetSubPath (CHR ''/'') None task_1GiB))
   \<and> fst (run_file_task sys_ex api_ok defaultConfig (CHR ''/'') ''col'' None task_1GiB)
       = [Ev_getPresignedUrlSingle 0, Ev_uploadPut, Ev_confirmSingleUpload]
   \<and> stat sys_ex (resolve sys_ex ''/up/a.txt'') = Inr (IsFile 3)
   \<and> \<not> isFileTypeDisallowed sys_ex (resolve sys_ex ''/up/a.txt'')
   \<and> 3 > multipart_threshold_gb cfg_5MiB * 1024 ^ 3
   \<and> upload sys_ex api_ok cfg_5MiB (CHR ''/'') hd ''/up/a.txt'' ''col'' None =
        Some (fst (handleMultipartUpload sys_ex api_ok cfg_5MiB (resolve sys_ex ''/up/a.txt'') 3 ''col'' None),
              map_sum id File_result
                (snd (snd (handleMultipartUpload sys_ex api_ok cfg_5MiB (resolve sys_ex ''/up/a.txt'') 3
                             ''col'' None))))"
proof -
  have h1: "size_t task_1GiB = multipart_threshold_gb defaultConfig * 1024 ^ 3"
    by (simp add: task_1GiB_def defaultConfig_def)
  have h2: "stat sys_ex (resolve sys_ex ''/up/a.txt'') = Inr (IsFile 3)" by (simp add: sys_ex_def)
  have h3: "\<not> isFileTypeDisallowed sys_ex (resolve sys_ex ''/up/a.txt'')" by code_simp
  have h4: "3 > multipart_threshold_gb cfg_5MiB * 1024 ^ 3" by (simp add: cfg_5MiB_def)
  from C4_threshold_dispatch[where cfg=defaultConfig and ft=task_1GiB and sy=sys_ex and api=api_ok
      and sep="CHR ''/''" and col="''col''" and tsp=None, THEN conjunct2, THEN conjunct1] h1
  have a: "run_file_task sys_ex api_ok defaultConfig (CHR ''/'') ''col'' None task_1GiB =
       handleSingleFileUpload sys_ex api_ok defaultConfig (localPath task_1GiB) (size_t task_1GiB) ''col''
         (Some (effectiveApiTargetSubPath (CHR ''/'') None task_1GiB))" by simp
  from C4_threshold_dispatch[where cfg=cfg_5MiB and sy=sys_ex and api=api_ok and src="''/up/a.txt''"
      and sz=3 and sep="CHR ''/''" and pick=hd and col="''col''" and tp=None, THEN conjunct1] h2 h3 h4
  have b: "upload sys_ex api_ok cfg_5MiB (CHR ''/'') hd ''/up/a.txt'' ''col'' None =
        Some (fst (handleMultipartUpload sys_ex api_ok cfg_5MiB (resolve sys_ex ''/up/a.txt'') 3 ''col'' None),
              map_sum id File_result
                (snd (snd (handleMultipartUpload sys_ex api_ok cfg_5MiB (resolve sys_ex ''/up/a.txt'') 3
                             ''col'' None))))" by simp
  have c: "fst (run_file_task sys_ex api_ok defaultConfig (CHR ''/'') ''col'' None task_1GiB)
       = [Ev_getPresignedUrlSingle 0, Ev_uploadPut, Ev_confirmSingleUpload]"
    by (simp add: task_1GiB_run)
  from h1 a c h2 h3 h4 b show ?thesis by blast
qed

text \<open>
  An object that \<open>processFolderUpload\<close> returns never reports a failed upload: the branch that
  builds it is reached only when \<open>failedUploads > 0\<close> is false.
\<close>

lemma processFolderUpload_returns_no_failures:
  "processFolderUpload sy api cfg sep pick rootFolderPath col tsp fc = Some (evs, Inr s)
     \<Longrightarrow> failedUploads_s s \<le> 0"
  by (auto simp: processFolderUpload_def Let_def split: sum.splits prod.splits if_splits)

text \<open>
  Through the entry point, where \<open>fileConcurrency\<close> receives \<open>this.globalArgs\<close>, the upload of a
  folder that holds a file never settles: no task is started, and the polling promise waits
  for \<open>currentIndex\<close> to reach the number of files.
\<close>

lemma upload_folder_never_settles:
  "upload sys_ex api_ok cfg_5MiB (CHR ''/'') hd ''/up'' ''col'' None = None"
  by code_simp

text \<open>
  Claim C5, on the folder \<open>/up\<close> when \<open>a.txt\<close> cannot be hashed and \<open>sub/b.txt\<close> uploads:
  \<open>processFolderUpload\<close> throws \<open>1 file(s) failed to upload during folder processing.\<close>, an
  error that carries the count and no per-file result.
\<close>

theorem C5_folder_failure_discards_results:
  "processFolderUpload sys_a_unreadable api_ok cfg_5MiB (CHR ''/'') hd ''/up'' ''col'' None (Some 4) =
     Some ([Ev_startMultipartUpload, Ev_getPresignedUrlForPart 1 0, Ev_uploadPartToS3PresignedPut 1 0,
            Ev_completeMultipartUpload [\<lparr>PartNumber = 1, ETag = ''e1'', ChecksumSHA256 = Some ''EjRW''\<rparr>]],
           Inl (Files_failed 1))
   \<and> scanFolderForUpload sys_a_unreadable (CHR ''/'') [] ''/up'' ''/up''
        [File_ent ''a.txt'', Dir_ent ''sub'' [File_ent ''b.txt'']] =
       Inr ([\<lparr>localPath = ''/up/a.txt'', relativePath = ''a.txt'', size_t = 3, status_t = ''pending'',
               errorMessage = None\<rparr>,
             \<lparr>localPath = ''/up/sub/b.txt'', relativePath = ''sub/b.txt'', size_t = 3,
               status_t = ''pending'', errorMessage = None\<rparr>], 6)
   \<and> snd (run_file_task sys_a_unreadable api_ok cfg_5MiB (CHR ''/'') ''col'' None
             \<lparr>localPath = ''/up/a.txt'', relativePath = ''a.txt'', size_t = 3, status_t = ''pending'',
               errorMessage = None\<rparr>) = Inl (Thrown ''EIO'')"
  by code_simp

section \<open>Relative paths of scanned files\<close>

lemma path_join_plain: "a \<noteq> [] \<Longrightarrow> b \<noteq> [] \<Longrightarrow> path_join sep a b = a @ sep # b"
  by (simp add: path_join_def)

lemma widen_paths:
  assumes "\<forall>t\<in>set files. R t \<and> (\<exists>comps\<in>set (concat (map file_paths items)). Q t comps)"
  shows "\<forall>t\<in>set files. R t \<and> (\<exists>comps\<in>set (concat (map file_paths (x # items))). Q t comps)"
proof
  fix t assume "t \<in> set files"
  with assms obtain comps where "R t" "comps \<in> set (concat (map file_paths items))" "Q t comps"
    by blast
  moreover then have "comps \<in> set (concat (map file_paths (x # items)))" by simp
  ultimately show "R t \<and> (\<exists>comps\<in>set (concat (map file_paths (x # items))). Q t comps)" by blast
qed

lemma scan_paths:
  assumes "scanFolderForUpload sy sep pats rootp folderPath items = Inr (files, tot)"
    and "\<forall>n\<in>set (concat (map names_of items)). n \<noteq> []"
    and "folderPath \<noteq> []"
  shows "\<forall>t\<in>set files. relativePath t = replace_backslashes (path_relative rootp (localPath t))
           \<and> (\<exists>comps\<in>set (concat (map file_paths items)).
                  localPath t = folderPath @ concat (map ((#) sep) comps))"
  using assms
proof (induction sy sep pats rootp folderPath items arbitrary: files tot
       rule: scanFolderForUpload.induct)
  case (1 sy sep pats rootp folderPath)
  then show ?case by simp
next
  case (2 sy sep pats rootp folderPath n sub items)
  let ?ip = "path_join sep folderPath n"
  have n: "n \<noteq> []" using "2.prems"(2) by simp
  have ip: "?ip = folderPath @ sep # n" using n "2.prems"(3) by (simp add: path_join_plain)
  show ?case
  proof (cases "isPathIgnored sy ?ip rootp pats")
    case True
    with "2.prems" have "scanFolderForUpload sy sep pats rootp folderPath items = Inr (files, tot)"
      by (simp add: Let_def)
    from "2.IH"(1)[OF refl True this] "2.prems"(2,3) show ?thesis by (intro widen_paths) simp
  next
    case False
    from "2.prems"(1) False obtain fs1 t1 fs2 t2 where
      s1: "scanFolderForUpload sy sep pats rootp ?ip sub = Inr (fs1, t1)" and
      s2: "scanFolderForUpload sy sep pats rootp folderPath items = Inr (fs2, t2)" and
      eq: "files = fs1 @ fs2"
      by (auto simp: Let_def split: sum.splits)
    have ipne: "?ip \<noteq> []" using ip by simp
    from "2.IH"(2)[OF refl False s1 _ ipne] "2.prems"(2)
    have a: "\<forall>t\<in>set fs1. relativePath t = replace_backslashes (path_relative rootp (localPath t))
           \<and> (\<exists>comps\<in>set (concat (map file_paths sub)). localPath t = ?ip @ concat (map ((#) sep) comps))"
      by simp
    from "2.IH"(3)[OF refl False s1 s2] "2.prems"(2,3)
    have b: "\<forall>t\<in>set fs2. relativePath t = replace_backslashes (path_relative rootp (localPath t))
           \<and> (\<exists>comps\<in>set (concat (map file_paths items)). localPath t = folderPath @ concat (map ((#) sep) comps))"
      by simp
    show ?thesis
    proof
      fix t assume "t \<in> set files"
      then consider "t \<in> set fs1" | "t \<in> set fs2" unfolding eq by auto
      then show "relativePath t = replace_backslashes (path_relative rootp (localPath t))
           \<and> (\<exists>comps\<in>set (concat (map file_paths (Dir_ent n sub # items))).
                  localPath t = folderPath @ concat (map ((#) sep) comps))"
      proof cases
        case 1
        with a obtain comps where c: "comps \<in> set (concat (map file_paths sub))"
          "localPath t = ?ip @ concat (map ((#) sep) comps)"
          "relativePath t = replace_backslashes (path_relative rootp (localPath t))" by blast
        have "n # comps \<in> set (concat (map file_paths (Dir_ent n sub # items)))" using c(1) by auto
        moreover have "localPath t = folderPath @ concat (map ((#) sep) (n # comps))"
          using c(2) ip by simp
        ultimately show ?thesis using c(3) by blast
      next
        case 2
        with widen_paths[OF b, of "Dir_ent n sub"] show ?thesis by blast
      qed
    qed
  qed
next
  case (3 sy sep pats rootp folderPath n e items)
  let ?ip = "path_join sep folderPath n"
  show ?case
  proof (cases "isPathIgnored sy ?ip rootp pats")
    case True
    with "3.prems" have "scanFolderForUpload sy sep pats rootp folderPath items = Inr (files, tot)"
      by (simp add: Let_def)
    from "3.IH"[OF refl True this] "3.prems"(2,3) show ?thesis by (intro widen_paths) simp
  next
    case False
    with "3.prems" show ?thesis by (simp add: Let_def)
  qed
next
  case (4 sy sep pats rootp folderPath n items)
  let ?ip = "path_join sep folderPath n"
  have n: "n \<noteq> []" using "4.prems"(2) by simp
  have ip: "?ip = folderPath @ sep # n" using n "4.prems"(3) by (simp add: path_join_plain)
  show ?case
  proof (cases "isPathIgnored sy ?ip rootp pats")
    case True
    with "4.prems" have "scanFolderForUpload sy sep pats rootp folderPath items = Inr (files, tot)"
      by (simp add: Let_def)
    from "4.IH"(1)[OF refl True this] "4.prems"(2,3) show ?thesis by (intro widen_paths) simp
  next
    case ni: False
    show ?thesis
    proof (cases "isFileTypeDisallowed sy ?ip")
      case True
      with ni "4.prems" have "scanFolderForUpload sy sep pats rootp folderPath items = Inr (files, tot)"
        by (simp add: Let_def)
      from "4.IH"(2)[OF refl ni True this] "4.prems"(2,3) show ?thesis by (intro widen_paths) simp
    next
      case False
      from "4.prems"(1) ni False obtain fsz fs2 t2 where
        g: "getFileSize sy ?ip = Inr fsz" and
        s2: "scanFolderForUpload sy sep pats rootp folderPath items = Inr (fs2, t2)" and
        eq: "files = \<lparr>localPath = ?ip, relativePath = replace_backslashes (path_relative rootp ?ip),
                       size_t = fsz, status_t = ''pending'', errorMessage = None\<rparr> # fs2"
        by (auto simp: Let_def split: sum.splits)
      from "4.IH"(3)[OF refl ni False g s2] "4.prems"(2,3)
      have b: "\<forall>t\<in>set fs2. relativePath t = replace_backslashes (path_relative rootp (localPath t))
           \<and> (\<exists>comps\<in>set (concat (map file_paths items)). localPath t = folderPath @ concat (map ((#) sep) comps))"
        by simp
      have "[n] \<in> set (concat (map file_paths (File_ent n # items)))" by simp
      moreover have "?ip = folderPath @ concat (map ((#) sep) [n])" using ip by simp
      ultimately show ?thesis
        unfolding eq using widen_paths[OF b, of "File_ent n"] by (simp del: file_paths.simps concat.simps map_eq_conv list.map) blast
    qed
  qed
next
  case (5 sy sep pats rootp folderPath n items)
  from "5.prems" have "scanFolderForUpload sy sep pats rootp folderPath items = Inr (files, tot)"
    by simp
  from "5.IH"[OF this] "5.prems"(2,3) show ?case by (intro widen_paths) simp
qed


lemma replace_backslashes_none: "CHR 0x5C \<notin> set (replace_backslashes s)"
  by (auto simp: replace_backslashes_def)

lemma replace_backslashes_id: "CHR 0x5C \<notin> set s \<Longrightarrow> replace_backslashes s = s"
  by (induction s) (auto simp: replace_backslashes_def)

lemma replace_backslashes_append:
  "replace_backslashes (a @ b) = replace_backslashes a @ replace_backslashes b"
  by (simp add: replace_backslashes_def)

lemma replace_backslashes_joined:
  assumes "sep = CHR ''/'' \<or> sep = CHR 0x5C" and "\<forall>n\<in>set cs. CHR 0x5C \<notin> set n"
  shows "replace_backslashes (concat (map ((#) sep) cs)) = concat (map ((#) (CHR ''/'')) cs)"
  using assms(2)
proof (induction cs)
  case Nil
  then show ?case by (simp add: replace_backslashes_def)
next
  case (Cons c cs)
  have h: "replace_backslashes (sep # c) = CHR ''/'' # c"
    using assms(1) Cons.prems replace_backslashes_id[of c] by (auto simp: replace_backslashes_def)
  have "concat (map ((#) sep) (c # cs)) = (sep # c) @ concat (map ((#) sep) cs)" by simp
  then have "replace_backslashes (concat (map ((#) sep) (c # cs)))
             = replace_backslashes (sep # c) @ replace_backslashes (concat (map ((#) sep) cs))"
    by (simp only: replace_backslashes_append)
  with h Cons show ?case by simp
qed

lemma relative_normalized:
  assumes "sep = CHR ''/'' \<or> sep = CHR 0x5C" and "comps \<noteq> []" and "\<forall>n\<in>set comps. CHR 0x5C \<notin> set n"
  shows "replace_backslashes (path_relative rootp (rootp @ concat (map ((#) sep) comps))) = join_slash comps"
proof -
  from assms(2) obtain c cs where c: "comps = c # cs" by (cases comps) auto
  have "path_relative rootp (rootp @ concat (map ((#) sep) comps)) = c @ concat (map ((#) sep) cs)"
    unfolding c by (simp add: path_relative_def)
  moreover have "replace_backslashes (c @ concat (map ((#) sep) cs)) = c @ concat (map ((#) (CHR ''/'')) cs)"
    using assms(3) replace_backslashes_joined[OF assms(1), of cs] replace_backslashes_id[of c]
    unfolding c by (simp add: replace_backslashes_append)
  ultimately show ?thesis unfolding c by (simp add: join_slash_def)
qed

lemma file_paths_names:
  "comps \<in> set (file_paths e) \<Longrightarrow> comps \<noteq> [] \<and> set comps \<subseteq> set (names_of e)"
proof (induction e arbitrary: comps rule: file_paths.induct)
  case (2 n es)
  then obtain x cs where x: "x \<in> set es" "cs \<in> set (file_paths x)" "comps = n # cs" by auto
  from "2.IH"[OF x(1,2)] have "set cs \<subseteq> set (names_of x)" by simp
  with x show ?case by auto
qed auto

text \<open>
  Claim C8.  On a platform whose separator is a forward slash or a backslash, for a scan
  root that is an absolute path in normal form on that platform (\<open>absolute_normalized\<close>) and
  a tree whose entry names are plain (\<open>plain_name\<close>: names that exist on both platforms),
  every file the scanner returns lies at the root followed by its name path joined with the
  platform's separator, and its relative path is that name path joined with \<open>/\<close>, without
  any backslash: the relative path is computed against the scan root and does not depend on
  the platform.
\<close>

theorem C8_relative_path_forward_slashes:
  assumes "sep = CHR ''/'' \<or> sep = CHR 0x5C"
    and "absolute_normalized sep rootp"
    and "\<forall>n\<in>set (concat (map names_of items)). plain_name n"
    and "scanFolderForUpload sy sep pats rootp rootp items = Inr (files, tot)"
  shows "\<forall>t\<in>set files. CHR 0x5C \<notin> set (relativePath t)
           \<and> (\<exists>comps\<in>set (concat (map file_paths items)).
                 localPath t = rootp @ concat (map ((#) sep) comps)
                 \<and> relativePath t = join_slash comps)"
proof
  fix t assume t: "t \<in> set files"
  have ne: "\<forall>n\<in>set (concat (map names_of items)). n \<noteq> []"
    using assms(3) by (auto simp: plain_name_def)
  have nb: "\<forall>n\<in>set (concat (map names_of items)). CHR 0x5C \<notin> set n"
    using assms(3) unfolding plain_name_def by blast
  have rne: "rootp \<noteq> []"
    using assms(2) by (auto simp: absolute_normalized_def split: if_splits)
  from scan_paths[OF assms(4) ne rne] t obtain comps where
    r: "relativePath t = replace_backslashes (path_relative rootp (localPath t))" and
    c: "comps \<in> set (concat (map file_paths items))" and
    l: "localPath t = rootp @ concat (map ((#) sep) comps)" by blast
  from c obtain e where e: "e \<in> set items" "comps \<in> set (file_paths e)" by auto
  from file_paths_names[OF e(2)] e(1) nb
  have ok: "comps \<noteq> []" "\<forall>n\<in>set comps. CHR 0x5C \<notin> set n" by auto
  have "relativePath t = join_slash comps"
    unfolding r l by (rule relative_normalized[OF assms(1) ok])
  moreover have "CHR 0x5C \<notin> set (relativePath t)" unfolding r by (rule replace_backslashes_none)
  ultimately show "CHR 0x5C \<notin> set (relativePath t)
           \<and> (\<exists>comps\<in>set (concat (map file_paths items)).
                 localPath t = rootp @ concat (map ((#) sep) comps)
                 \<and> relativePath t = join_slash comps)"
    using c l by blast
qed

text \<open>
  The folder \<open>up\<close> of drive \<open>C\<close> scanned on Windows and the folder \<open>/up\<close> scanned on POSIX: the
  local paths differ, the relative paths are the same.
\<close>

lemma scan_win:
  "scanFolderForUpload sys_ex (CHR 0x5C) [] (''C:'' @ [CHR 0x5C] @ ''up'') (''C:'' @ [CHR 0x5C] @ ''up'')
     tree_ex =
     Inr ([\<lparr>localPath = ''C:'' @ [CHR 0x5C] @ ''up'' @ [CHR 0x5C] @ ''a.txt'', relativePath = ''a.txt'',
             size_t = 3, status_t = ''pending'', errorMessage = None\<rparr>,
           \<lparr>localPath = ''C:'' @ [CHR 0x5C] @ ''up'' @ [CHR 0x5C] @ ''sub'' @ [CHR 0x5C] @ ''b.txt'',
             relativePath = ''sub/b.txt'', size_t = 3, status_t = ''pending'', errorMessage = None\<rparr>], 6)"
  by code_simp

lemma scan_posix:
  "scanFolderForUpload sys_ex (CHR ''/'') [] ''/up'' ''/up'' tree_ex =
     Inr ([\<lparr>localPath = ''/up/a.txt'', relativePath = ''a.txt'', size_t = 3,
             status_t = ''pending'', errorMessage = None\<rparr>,
           \<lparr>localPath = ''/up/sub/b.txt'', relativePath = ''sub/b.txt'', size_t = 3,
             status_t = ''pending'', errorMessage = None\<rparr>], 6)"
  by code_simp

lemma roots_absolute_normalized:
  "absolute_normalized (CHR 0x5C) (''C:'' @ [CHR 0x5C] @ ''up'')"
  "absolute_normalized (CHR ''/'') ''/up''"
  "\<not> absolute_normalized (CHR 0x5C) ''C:''" "\<not> absolute_normalized (CHR ''/'') ''.''"
  "\<not> absolute_normalized (CHR ''/'') ''/''" "\<not> absolute_normalized (CHR ''/'') ''/up/''"
  "\<not> absolute_normalized (CHR ''/'') ''/up/../x''"
  by (simp_all add: absolute_normalized_def plain_name_def is_drive_letter_def)

theorem C8_relative_path_forward_slashes_witness:
  "(CHR 0x5C = CHR ''/'' \<or> CHR 0x5C = CHR 0x5C) \<and> (CHR ''/'' = CHR ''/'' \<or> CHR ''/'' = CHR 0x5C)
   \<and> absolute_normalized (CHR 0x5C) (''C:'' @ [CHR 0x5C] @ ''up'')
   \<and> absolute_normalized (CHR ''/'') ''/up''
   \<and> list_all plain_name (concat (map names_of tree_ex))
   \<and> map relativePath (fst (projr (scanFolderForUpload sys_ex (CHR 0x5C) []
         (''C:'' @ [CHR 0x5C] @ ''up'') (''C:'' @ [CHR 0x5C] @ ''up'') tree_ex)))
       = [''a.txt'', ''sub/b.txt'']
   \<and> map relativePath (fst (projr (scanFolderForUpload sys_ex (CHR ''/'') [] ''/up'' ''/up'' tree_ex)))
       = [''a.txt'', ''sub/b.txt'']
   \<and> list_all (\<lambda>t. CHR 0x5C \<notin> set (relativePath t))
        (fst (projr (scanFolderForUpload sys_ex (CHR 0x5C) []
           (''C:'' @ [CHR 0x5C] @ ''up'') (''C:'' @ [CHR 0x5C] @ ''up'') tree_ex)))
   \<and> list_all (\<lambda>t. CHR 0x5C \<notin> set (relativePath t))
        (fst (projr (scanFolderForUpload sys_ex (CHR ''/'') [] ''/up'' ''/up'' tree_ex)))"
proof -
  have w1: "CHR 0x5C = CHR ''/'' \<or> CHR 0x5C = CHR 0x5C" by simp
  have p1: "CHR ''/'' = CHR ''/'' \<or> CHR ''/'' = CHR 0x5C" by simp
  have w2: "absolute_normalized (CHR 0x5C) (''C:'' @ [CHR 0x5C] @ ''up'')"
    by (simp add: absolute_normalized_def plain_name_def is_drive_letter_def)
  have p2: "absolute_normalized (CHR ''/'') ''/up''"
    by (simp add: absolute_normalized_def plain_name_def)
  have h3: "list_all plain_name (concat (map names_of tree_ex))"
    by (simp add: tree_ex_def plain_name_def)
  then have h3': "\<forall>n\<in>set (concat (map names_of tree_ex)). plain_name n"
    unfolding list_all_iff .
  from C8_relative_path_forward_slashes[OF w1 w2 h3' scan_win]
  have w: "list_all (\<lambda>t. CHR 0x5C \<notin> set (relativePath t))
        (fst (projr (scanFolderForUpload sys_ex (CHR 0x5C) []
           (''C:'' @ [CHR 0x5C] @ ''up'') (''C:'' @ [CHR 0x5C] @ ''up'') tree_ex)))"
    unfolding scan_win list_all_iff by simp
  from C8_relative_path_forward_slashes[OF p1 p2 h3' scan_posix]
  have p: "list_all (\<lambda>t. CHR 0x5C \<notin> set (relativePath t))
        (fst (projr (scanFolderForUpload sys_ex (CHR ''/'') [] ''/up'' ''/up'' tree_ex)))"
    unfolding scan_posix list_all_iff by simp
  have m1: "map relativePath (fst (projr (scanFolderForUpload sys_ex (CHR 0x5C) []
         (''C:'' @ [CHR 0x5C] @ ''up'') (''C:'' @ [CHR 0x5C] @ ''up'') tree_ex)))
       = [''a.txt'', ''sub/b.txt'']"
    unfolding scan_win by simp
  have m2: "map relativePath (fst (projr (scanFolderForUpload sys_ex (CHR ''/'') [] ''/up'' ''/up'' tree_ex)))
       = [''a.txt'', ''sub/b.txt'']"
    unfolding scan_posix by simp
  from w1 p1 w2 p2 h3 m1 m2 w p show ?thesis by blast
qed

end
